theory Spec2Isabelle
  imports Main
begin

section \<open>Job application tracker: the backend module\<close>

text \<open>
  The backend keeps three SQLite tables (users, user_profiles, job_applications) and
  mirrors job rows to the first worksheet of a Google spreadsheet.  The embedding passes
  one explicit state, \<open>world\<close>, through every function: the three tables with their
  AUTOINCREMENT counters, the worksheet, the outcome of the coming transport calls, the
  clock and standard output.

  Text is a list of 8-bit characters, each standing for one code point, so \<open>length\<close> is
  Python's \<open>len\<close>; text beyond Latin-1 is outside the model.  A dictionary built from
  form fields is a map from keys to text; the profile dictionary has one more value, the
  integer under \<open>experience_months\<close>.  The SQLite file is local and always available;
  the only database error the module handles, the UNIQUE violation on users.email, is
  modelled.
\<close>

subsection \<open>Exceptions and results\<close>

datatype exn =
    KeyError string
  | ValueError string
  | TransportError string
  | OverflowError string

text \<open>\<open>str(e)\<close> as the f-strings and \<open>print\<close> render it.\<close>

fun str_exn :: "exn \<Rightarrow> string" where
  "str_exn (KeyError k) = [CHR 0x27] @ k @ [CHR 0x27]"
| "str_exn (ValueError m) = m"
| "str_exn (TransportError m) = m"
| "str_exn (OverflowError m) = m"

text \<open>
  An INTEGER of SQLite has 64 bits.  The \<open>sqlite3\<close> module raises OverflowError when a
  Python integer outside that range is bound to a parameter of a statement; the statement
  is not run.
\<close>

definition sqlite_int :: "int \<Rightarrow> bool" where
  "sqlite_int i \<longleftrightarrow> - (2 ^ 63) \<le> i \<and> i < 2 ^ 63"

definition int_overflow :: exn where
  "int_overflow = OverflowError ''Python int too large to convert to SQLite INTEGER''"

type_synonym dict = "string \<rightharpoonup> string"

text \<open>\<open>data.get(key, default)\<close> and \<open>data[key]\<close>.\<close>

definition get :: "dict \<Rightarrow> string \<Rightarrow> string \<Rightarrow> string" where
  "get data k d = (case data k of None \<Rightarrow> d | Some v \<Rightarrow> v)"

definition getitem :: "dict \<Rightarrow> string \<Rightarrow> exn + string" where
  "getitem data k = (case data k of None \<Rightarrow> Inl (KeyError k) | Some v \<Rightarrow> Inr v)"

subsection \<open>The tables\<close>

record user =
  user_id :: int
  email :: string
  password_hash :: string
  user_created_at :: string

text \<open>
  The profile dictionary as the request layer builds it: text under every key but
  \<open>experience_months\<close>, an integer under that one when the key is present.  SQLite
  stores a text in a TEXT column and a 64-bit integer in an INTEGER column as they are.
\<close>

record profile_data =
  form_text :: dict
  form_experience_months :: "int option"

text \<open>The values of a dictionary the module returns are text or integers.\<close>

datatype pyval = Text string | Integer int

type_synonym pdict = "string \<rightharpoonup> pyval"

record profile =
  profile_id :: int
  p_user_email :: string
  first_name :: string
  last_name :: string
  address :: string
  city :: string
  mobile_number :: string
  github_url :: string
  job_position :: string
  experience_months :: int
  skills :: string
  preferred_locations :: string
  profile_created_at :: string

record job =
  job_id :: int
  user_email :: string
  job_link :: string
  company_name :: string
  job_role :: string
  job_location :: string
  status :: string
  recruiter_name :: string
  recruiter_email :: string
  recruiter_phone :: string
  comments :: string
  created_at :: string

subsection \<open>The worksheet and its transport\<close>

text \<open>
  A call of the gspread client either completes, with its effect on the worksheet, or
  raises.  \<open>faults\<close> lists the outcomes of the coming calls, the next one first:
  \<open>None\<close> lets the call complete, \<open>Some m\<close> makes it raise with message \<open>m\<close> and no
  effect; once the list is used up every call completes.  \<open>trace\<close> records the completed
  calls in order.
\<close>

datatype gs_call =
    Connect
  | GetAllValues
  | AppendRow "string list"
  | Clear
  | DeleteRows nat

record world =
  users :: "user list"
  user_profiles :: "profile list"
  job_applications :: "job list"
  seq_users :: int
  seq_profiles :: int
  seq_jobs :: int
  sheet :: "string list list"
  faults :: "string option list"
  trace :: "gs_call list"
  clock :: int
  entropy :: nat
  stdout :: "string list"

type_synonym 'a io = "world \<Rightarrow> (exn + 'a) \<times> world"

definition io_return :: "'a \<Rightarrow> 'a io" where
  "io_return x w = (Inr x, w)"

definition io_raise :: "exn \<Rightarrow> 'a io" where
  "io_raise e w = (Inl e, w)"

definition io_bind :: "'a io \<Rightarrow> ('a \<Rightarrow> 'b io) \<Rightarrow> 'b io" where
  "io_bind m f w = (case m w of (Inl e, w') \<Rightarrow> (Inl e, w') | (Inr x, w') \<Rightarrow> f x w')"

text \<open>\<open>try: m except Exception as e: h e\<close>.\<close>

definition try_except :: "'a io \<Rightarrow> (exn \<Rightarrow> 'a io) \<Rightarrow> 'a io" where
  "try_except m h w = (case m w of (Inl e, w') \<Rightarrow> h e w' | (Inr x, w') \<Rightarrow> (Inr x, w'))"

definition print :: "string \<Rightarrow> unit io" where
  "print s w = (Inr (), w\<lparr>stdout := stdout w @ [s]\<rparr>)"

text \<open>The effect of a completed call on the worksheet; rows are numbered from 1.\<close>

fun effect :: "gs_call \<Rightarrow> string list list \<Rightarrow> string list list" where
  "effect Connect rows = rows"
| "effect GetAllValues rows = rows"
| "effect (AppendRow r) rows = rows @ [r]"
| "effect Clear rows = []"
| "effect (DeleteRows i) rows = take (i - 1) rows @ drop i rows"

definition transport :: "gs_call \<Rightarrow> unit io" where
  "transport c w =
     (case faults w of
        [] \<Rightarrow> (Inr (), w\<lparr>sheet := effect c (sheet w), trace := trace w @ [c]\<rparr>)
      | None # fs \<Rightarrow>
          (Inr (), w\<lparr>sheet := effect c (sheet w), faults := fs, trace := trace w @ [c]\<rparr>)
      | Some m # fs \<Rightarrow> (Inl (TransportError m), w\<lparr>faults := fs\<rparr>))"

text \<open>
  \<open>Credentials.from_service_account_file\<close>, \<open>gspread.authorize\<close> and
  \<open>client.open_by_key(SHEET_ID).sheet1\<close>: three calls that reach no row.
\<close>

definition open_sheet :: "unit io" where
  "open_sheet =
     io_bind (transport Connect) (\<lambda>_.
     io_bind (transport Connect) (\<lambda>_.
     transport Connect))"

definition get_all_values :: "string list list io" where
  "get_all_values = io_bind (transport GetAllValues) (\<lambda>_ w. (Inr (sheet w), w))"

definition append_row :: "string list \<Rightarrow> unit io" where
  "append_row r = transport (AppendRow r)"

definition clear :: "unit io" where
  "clear = transport Clear"

definition delete_rows :: "nat \<Rightarrow> unit io" where
  "delete_rows i = transport (DeleteRows i)"

subsection \<open>The libraries the module calls\<close>

text \<open>
  \<open>validators.email\<close>, \<open>bcrypt\<close> and \<open>datetime\<close> are not part of the repository; the
  functions take them as a parameter.  \<open>gensalt\<close> maps the state of the random source to
  a salt; an instant is a number of microseconds, \<open>isoformat\<close> its ISO-8601 text and
  \<open>fromisoformat\<close> the parser, \<open>None\<close> where Python raises ValueError.
\<close>

record libs =
  valid_email :: "string \<Rightarrow> bool"
  gensalt :: "nat \<Rightarrow> string"
  hashpw :: "string \<Rightarrow> string \<Rightarrow> string"
  checkpw :: "string \<Rightarrow> string \<Rightarrow> bool"
  isoformat :: "int \<Rightarrow> string"
  fromisoformat :: "string \<Rightarrow> int option"

definition utcnow :: "int io" where
  "utcnow w = (Inr (clock w), w)"

text \<open>\<open>timedelta.days\<close>: the floor of the difference in days.\<close>

definition days :: "int \<Rightarrow> int" where
  "days micros = micros div 86400000000"

text \<open>\<open>str\<close> of an integer, as the worksheet shows a number.\<close>

fun str_nat :: "nat \<Rightarrow> string" where
  "str_nat n =
     (if n < 10 then [char_of (48 + n)]
      else str_nat (n div 10) @ [char_of (48 + n mod 10)])"

declare str_nat.simps [simp del]

definition str_int :: "int \<Rightarrow> string" where
  "str_int i = (if i < 0 then CHR ''-'' # str_nat (nat (- i)) else str_nat (nat i))"

text \<open>\<open>str.strip()\<close>: white space is what \<open>str.isspace\<close> accepts below code point 256.\<close>

definition isspace :: "char \<Rightarrow> bool" where
  "isspace c = ((of_char c :: nat) \<in> set [9, 10, 11, 12, 13, 28, 29, 30, 31, 32, 133, 160])"

definition strip :: "string \<Rightarrow> string" where
  "strip s = rev (dropWhile isspace (rev (dropWhile isspace s)))"

subsection \<open>The spreadsheet mirror\<close>

definition headers :: "string list" where
  "headers =
     [''User Email'', ''Job Link'', ''Company Name'', ''Job Role'', ''Job Location'', ''Status'',
      ''Recruiter Name'', ''Recruiter Email'', ''Recruiter Phone'', ''Days Since Created'',
      ''Comments'', ''Created At'']"

text \<open>
  The test of \<open>append_job_to_google_sheets\<close> on the first row:
  \<open>len(first_row) < len(headers) or any(h1.strip() != h2.strip() for h1, h2 in zip(first_row, headers))\<close>.
\<close>

definition header_mismatch :: "string list \<Rightarrow> bool" where
  "header_mismatch first_row \<longleftrightarrow>
     length first_row < length headers \<or>
     list_ex (\<lambda>(h1, h2). strip h1 \<noteq> strip h2) (zip first_row headers)"

definition parse_iso :: "libs \<Rightarrow> string \<Rightarrow> int io" where
  "parse_iso L s =
     (case fromisoformat L s of
        None \<Rightarrow> io_raise (ValueError (''Invalid isoformat string: '' @ [CHR 0x27] @ s @ [CHR 0x27]))
      | Some t \<Rightarrow> io_return t)"

definition sheet_row :: "dict \<Rightarrow> int \<Rightarrow> string \<Rightarrow> string list" where
  "sheet_row data days_since created_iso =
     [get data ''user_email'' [],
      get data ''job_link'' [],
      get data ''company_name'' [],
      get data ''job_role'' [],
      get data ''job_location'' [],
      get data ''status'' [],
      get data ''recruiter_name'' [],
      get data ''recruiter_email'' [],
      get data ''recruiter_phone'' [],
      str_int days_since,
      get data ''comments'' [],
      created_iso]"

text \<open>The body of the \<open>try\<close> of \<open>append_job_to_google_sheets\<close>.\<close>

definition append_job_try :: "libs \<Rightarrow> dict \<Rightarrow> string \<Rightarrow> string io" where
  "append_job_try L data created_iso =
     io_bind open_sheet (\<lambda>_.
     io_bind get_all_values (\<lambda>all_values.
     io_bind
       (if all_values = [] then append_row headers
        else if header_mismatch (hd all_values)
          then io_bind clear (\<lambda>_. append_row headers)
          else io_return ()) (\<lambda>_.
     io_bind (parse_iso L created_iso) (\<lambda>created_dt.
     io_bind utcnow (\<lambda>now.
     io_bind (append_row (sheet_row data (days (now - created_dt)) created_iso)) (\<lambda>_.
     io_return ''Job appended to Google Sheets.''))))))"

definition append_job_to_google_sheets :: "libs \<Rightarrow> dict \<Rightarrow> string \<Rightarrow> string io" where
  "append_job_to_google_sheets L data created_iso =
     try_except (append_job_try L data created_iso) (\<lambda>e.
       io_bind (print (''Google Sheets error: '' @ str_exn e)) (\<lambda>_.
       io_return (''Failed to append job to Google Sheets: '' @ str_exn e)))"

text \<open>\<open>headers.index(name)\<close> for a name that is in the list.\<close>

fun index :: "'a list \<Rightarrow> 'a \<Rightarrow> nat" where
  "index [] x = 0"
| "index (y # ys) x = (if y = x then 0 else Suc (index ys x))"

text \<open>\<open>headers.index(name) + 1 if name in headers else None\<close>.\<close>

definition column :: "string list \<Rightarrow> string \<Rightarrow> nat option" where
  "column hs name = (if name \<in> set hs then Some (index hs name + 1) else None)"

text \<open>The test of the scan on one row, for the two column numbers.\<close>

definition row_matches :: "nat \<Rightarrow> nat \<Rightarrow> string \<Rightarrow> string \<Rightarrow> string list \<Rightarrow> bool" where
  "row_matches user_email_col job_link_col ue jl row \<longleftrightarrow>
     length row \<ge> max user_email_col job_link_col \<and>
     row ! (user_email_col - 1) = ue \<and> row ! (job_link_col - 1) = jl"

text \<open>The scan \<open>for i, row in enumerate(data[1:], start=2)\<close>, collecting row numbers.\<close>

fun scan_rows :: "nat \<Rightarrow> nat \<Rightarrow> string \<Rightarrow> string \<Rightarrow> nat \<Rightarrow> string list list \<Rightarrow> nat list" where
  "scan_rows uc jc ue jl i [] = []"
| "scan_rows uc jc ue jl i (row # rows) =
     (if row_matches uc jc ue jl row then i # scan_rows uc jc ue jl (Suc i) rows
      else scan_rows uc jc ue jl (Suc i) rows)"

text \<open>The loop \<open>for row_idx in ...: sheet.delete_rows(row_idx)\<close>.\<close>

fun delete_each :: "nat list \<Rightarrow> unit io" where
  "delete_each [] = io_return ()"
| "delete_each (row_idx # rest) = io_bind (delete_rows row_idx) (\<lambda>_. delete_each rest)"

text \<open>The body of the \<open>try\<close> of \<open>delete_job_from_google_sheets\<close>.\<close>

definition delete_job_try :: "string \<Rightarrow> string \<Rightarrow> string io" where
  "delete_job_try ue jl =
     io_bind open_sheet (\<lambda>_.
     io_bind get_all_values (\<lambda>data.
     if data = [] \<or> length data \<le> 1 then io_return ''No rows to delete in Google Sheet.''
     else
       (case (column (hd data) ''User Email'', column (hd data) ''Job Link'') of
          (Some user_email_col, Some job_link_col) \<Rightarrow>
            (let rows_to_delete = scan_rows user_email_col job_link_col ue jl 2 (tl data) in
             if rows_to_delete = [] then io_return ''No matching row found in Google Sheet.''
             else io_bind (delete_each (rev (sort rows_to_delete))) (\<lambda>_.
                  io_return ''Deleted from Google Sheet.''))
        | _ \<Rightarrow> io_return ''Required columns not found in Google Sheet.'')))"

definition delete_job_from_google_sheets :: "string \<Rightarrow> string \<Rightarrow> string io" where
  "delete_job_from_google_sheets ue jl =
     try_except (delete_job_try ue jl) (\<lambda>e.
       io_bind (print (''Error deleting job from Google Sheets: '' @ str_exn e)) (\<lambda>_.
       io_return (''Failed to delete from Google Sheets: '' @ str_exn e)))"



subsection \<open>The local store\<close>

text \<open>
  \<open>INTEGER PRIMARY KEY AUTOINCREMENT\<close>: the new id is one more than the largest id the
  table has ever held, which SQLite keeps in \<open>sqlite_sequence\<close> (here \<open>seq_users\<close>,
  \<open>seq_profiles\<close>, \<open>seq_jobs\<close>).
\<close>

definition next_rowid :: "int \<Rightarrow> int list \<Rightarrow> int" where
  "next_rowid seq ids = foldr max ids seq + 1"

text \<open>\<open>ORDER BY id DESC\<close>.\<close>

definition order_by_desc :: "('a \<Rightarrow> int) \<Rightarrow> 'a list \<Rightarrow> 'a list" where
  "order_by_desc key rows = rev (sort_key key rows)"

text \<open>\<open>fetchone()\<close> on the rows of a query.\<close>

definition fetchone :: "'a list \<Rightarrow> 'a option" where
  "fetchone rows = (case rows of [] \<Rightarrow> None | r # _ \<Rightarrow> Some r)"


subsubsection \<open>Registration and login\<close>

definition register_user :: "libs \<Rightarrow> string \<Rightarrow> string \<Rightarrow> world \<Rightarrow> string \<times> world" where
  "register_user L e password w =
     (if \<not> valid_email L e then (''Invalid email format.'', w)
      else if length password < 8 then (''Password must be at least 8 characters.'', w)
      else
        (let hash = hashpw L password (gensalt L (entropy w));
             w1 = w\<lparr>entropy := Suc (entropy w)\<rparr>
         in if list_ex (\<lambda>u. email u = e) (users w1)
            then (''Email already registered.'', w1)
            else
              (let i = next_rowid (seq_users w1) (map user_id (users w1))
               in (''Registration successful!'',
                   w1\<lparr>users := users w1 @
                        [\<lparr>user_id = i, email = e, password_hash = hash,
                          user_created_at = isoformat L (clock w1)\<rparr>],
                      seq_users := i\<rparr>))))"

definition login_user :: "libs \<Rightarrow> string \<Rightarrow> string \<Rightarrow> world \<Rightarrow> string" where
  "login_user L e password w =
     (case fetchone (filter (\<lambda>u. email u = e) (users w)) of
        None \<Rightarrow> ''No account found with that email.''
      | Some u \<Rightarrow>
          if checkpw L password (password_hash u) then ''Login successful!''
          else ''Incorrect password.'')"

subsubsection \<open>Profiles\<close>

text \<open>\<open>data.get("experience_months", 0)\<close>.\<close>

definition get_experience_months :: "profile_data \<Rightarrow> int" where
  "get_experience_months data = (case form_experience_months data of None \<Rightarrow> 0 | Some n \<Rightarrow> n)"

definition save_profile :: "libs \<Rightarrow> profile_data \<Rightarrow> string io" where
  "save_profile L data w =
     (case getitem (form_text data) ''user_email'' of
        Inl e \<Rightarrow> (Inl e, w)
      | Inr ue \<Rightarrow>
          if \<not> sqlite_int (get_experience_months data) then (Inl int_overflow, w)
          else
            (let i = next_rowid (seq_profiles w) (map profile_id (user_profiles w))
             in (Inr ''Profile saved locally.'',
                 w\<lparr>user_profiles := user_profiles w @
                      [\<lparr>profile_id = i, p_user_email = ue,
                        first_name = get (form_text data) ''first_name'' [],
                        last_name = get (form_text data) ''last_name'' [],
                        address = get (form_text data) ''address'' [],
                        city = get (form_text data) ''city'' [],
                        mobile_number = get (form_text data) ''mobile_number'' [],
                        github_url = get (form_text data) ''github_url'' [],
                        job_position = get (form_text data) ''job_position'' [],
                        experience_months = get_experience_months data,
                        skills = get (form_text data) ''skills'' [],
                        preferred_locations = get (form_text data) ''preferred_locations'' [],
                        profile_created_at = isoformat L (clock w)\<rparr>],
                    seq_profiles := i\<rparr>)))"

text \<open>\<open>SELECT ... FROM user_profiles WHERE user_email = ? ORDER BY id DESC LIMIT 1\<close>.\<close>

definition latest_profile :: "string \<Rightarrow> world \<Rightarrow> profile option" where
  "latest_profile ue w =
     fetchone (order_by_desc profile_id
       (filter (\<lambda>p. p_user_email p = ue) (user_profiles w)))"

definition get_profile :: "string \<Rightarrow> world \<Rightarrow> pdict" where
  "get_profile ue w =
     (case latest_profile ue w of
        Some row \<Rightarrow>
          [''first_name'' \<mapsto> Text (first_name row),
           ''last_name'' \<mapsto> Text (last_name row),
           ''address'' \<mapsto> Text (address row),
           ''city'' \<mapsto> Text (city row),
           ''mobile_number'' \<mapsto> Text (mobile_number row),
           ''github_url'' \<mapsto> Text (github_url row),
           ''job_position'' \<mapsto> Text (job_position row),
           ''experience_months'' \<mapsto> Integer (experience_months row),
           ''skills'' \<mapsto> Text (skills row),
           ''preferred_locations'' \<mapsto> Text (preferred_locations row)]
      | None \<Rightarrow> Map.empty)"

text \<open>The \<open>SET\<close> list of \<open>update_profile\<close>.\<close>

definition set_profile :: "profile_data \<Rightarrow> profile \<Rightarrow> profile" where
  "set_profile data p =
     p\<lparr>first_name := get (form_text data) ''first_name'' [],
       last_name := get (form_text data) ''last_name'' [],
       address := get (form_text data) ''address'' [],
       city := get (form_text data) ''city'' [],
       mobile_number := get (form_text data) ''mobile_number'' [],
       github_url := get (form_text data) ''github_url'' [],
       job_position := get (form_text data) ''job_position'' [],
       experience_months := get_experience_months data,
       skills := get (form_text data) ''skills'' [],
       preferred_locations := get (form_text data) ''preferred_locations'' []\<rparr>"

text \<open>
  \<open>UPDATE user_profiles SET ... WHERE id = (SELECT id ... ORDER BY id DESC LIMIT 1)\<close>:
  a subquery with no row is NULL, and \<open>id = NULL\<close> holds for no row.  The integer of
  \<open>experience_months\<close> is bound first; when it does not fit, nothing is updated.
\<close>

definition update_profile :: "string \<Rightarrow> profile_data \<Rightarrow> string io" where
  "update_profile ue data w =
     (if \<not> sqlite_int (get_experience_months data) then (Inl int_overflow, w)
      else
        (Inr ''Profile updated locally.'',
         (case map_option profile_id (latest_profile ue w) of
            None \<Rightarrow> w
          | Some i \<Rightarrow>
              w\<lparr>user_profiles :=
                  map (\<lambda>p. if profile_id p = i then set_profile data p else p)
                    (user_profiles w)\<rparr>)))"

subsubsection \<open>Job applications\<close>

definition job_exists_for_user :: "string \<Rightarrow> string \<Rightarrow> world \<Rightarrow> bool" where
  "job_exists_for_user ue jl w \<longleftrightarrow>
     fetchone (filter (\<lambda>j. user_email j = ue \<and> job_link j = jl) (job_applications w)) \<noteq> None"

text \<open>The \<open>INSERT INTO job_applications\<close> shared by both definitions of the save.\<close>

definition insert_job :: "string \<Rightarrow> dict \<Rightarrow> string \<Rightarrow> world \<Rightarrow> world" where
  "insert_job ue data now_iso w =
     (let i = next_rowid (seq_jobs w) (map job_id (job_applications w))
      in w\<lparr>job_applications := job_applications w @
              [\<lparr>job_id = i, user_email = ue,
                job_link = get data ''job_link'' [],
                company_name = get data ''company_name'' [],
                job_role = get data ''job_role'' [],
                job_location = get data ''job_location'' [],
                status = get data ''status'' [],
                recruiter_name = get data ''recruiter_name'' [],
                recruiter_email = get data ''recruiter_email'' [],
                recruiter_phone = get data ''recruiter_phone'' [],
                comments = get data ''comments'' [],
                created_at = now_iso\<rparr>],
            seq_jobs := i\<rparr>)"

text \<open>
  The module defines \<open>save_job_application\<close> twice.  The first definition (lines 234 to
  269) checks \<open>job_exists_for_user\<close> and returns the duplicate message; the second (lines
  678 to 706) has no check.  Python binds the name to the later definition when the
  module is loaded, so \<open>save_job_application\<close> below is the second one, and the first is
  kept as \<open>save_job_application_shadowed\<close>.
\<close>

definition save_job_application_shadowed :: "libs \<Rightarrow> dict \<Rightarrow> string io" where
  "save_job_application_shadowed L data w =
     (case getitem data ''user_email'' of
        Inl e \<Rightarrow> (Inl e, w)
      | Inr ue \<Rightarrow>
     (case getitem data ''job_link'' of
        Inl e \<Rightarrow> (Inl e, w)
      | Inr jl \<Rightarrow>
          if job_exists_for_user ue jl w
          then (Inr ''Duplicate job link for this user. Record not added.'', w)
          else
            (let now_iso = isoformat L (clock w)
             in io_bind (append_job_to_google_sheets L data now_iso) (\<lambda>gs_msg.
                io_bind (print (''Google Sheets: '' @ gs_msg)) (\<lambda>_.
                io_return ''Job application saved successfully!''))
                  (insert_job ue data now_iso w))))"

definition save_job_application :: "libs \<Rightarrow> dict \<Rightarrow> string io" where
  "save_job_application L data w =
     (let now_iso = isoformat L (clock w)
      in case getitem data ''user_email'' of
           Inl e \<Rightarrow> (Inl e, w)
         | Inr ue \<Rightarrow>
             io_bind (append_job_to_google_sheets L data now_iso) (\<lambda>gs_msg.
             io_bind (print (''Google Sheets: '' @ gs_msg)) (\<lambda>_.
             io_return ''Job application saved successfully!''))
               (insert_job ue data now_iso w))"

text \<open>The dictionary \<open>get_user_applications\<close> builds from one row of its query.\<close>

definition application_dict :: "job \<Rightarrow> pdict" where
  "application_dict row =
     [''id'' \<mapsto> Integer (job_id row),
      ''job_link'' \<mapsto> Text (job_link row),
      ''company_name'' \<mapsto> Text (company_name row),
      ''job_role'' \<mapsto> Text (job_role row),
      ''job_location'' \<mapsto> Text (job_location row),
      ''status'' \<mapsto> Text (status row),
      ''recruiter_name'' \<mapsto> Text (recruiter_name row),
      ''recruiter_email'' \<mapsto> Text (recruiter_email row),
      ''recruiter_phone'' \<mapsto> Text (recruiter_phone row),
      ''comments'' \<mapsto> Text (comments row),
      ''created_at'' \<mapsto> Text (created_at row)]"

text \<open>\<open>SELECT ... FROM job_applications WHERE user_email = ? ORDER BY id DESC\<close>.\<close>

definition select_user_applications :: "string \<Rightarrow> world \<Rightarrow> job list" where
  "select_user_applications ue w =
     order_by_desc job_id (filter (\<lambda>j. user_email j = ue) (job_applications w))"

definition get_user_applications :: "string \<Rightarrow> world \<Rightarrow> pdict list" where
  "get_user_applications ue w = map application_dict (select_user_applications ue w)"

text \<open>The \<open>SET\<close> list of \<open>update_job_application\<close>.\<close>

definition set_job :: "dict \<Rightarrow> job \<Rightarrow> job" where
  "set_job data j =
     j\<lparr>job_link := get data ''job_link'' [],
       company_name := get data ''company_name'' [],
       job_role := get data ''job_role'' [],
       job_location := get data ''job_location'' [],
       status := get data ''status'' [],
       recruiter_name := get data ''recruiter_name'' [],
       recruiter_email := get data ''recruiter_email'' [],
       recruiter_phone := get data ''recruiter_phone'' [],
       comments := get data ''comments'' []\<rparr>"

text \<open>
  \<open>update_job_application\<close>: the id is bound to the \<open>WHERE\<close> of the \<open>UPDATE\<close>; when it
  does not fit a 64-bit integer the call raises and nothing is updated.
\<close>

definition update_job_application :: "int \<Rightarrow> dict \<Rightarrow> string io" where
  "update_job_application i data w =
     (if \<not> sqlite_int i then (Inl int_overflow, w)
      else
        (Inr ''Job updated locally.'',
         w\<lparr>job_applications :=
             map (\<lambda>j. if job_id j = i then set_job data j else j) (job_applications w)\<rparr>))"

text \<open>
  \<open>delete_job_application_by_id\<close>: the id is bound to the \<open>SELECT\<close> first; when it does
  not fit a 64-bit integer the call raises there.
\<close>

definition delete_job_application_by_id :: "int \<Rightarrow> string io" where
  "delete_job_application_by_id i w =
     (if \<not> sqlite_int i then (Inl int_overflow, w)
      else
        (case fetchone (filter (\<lambda>j. job_id j = i) (job_applications w)) of
           None \<Rightarrow> (Inr ''No such job record found.'', w)
         | Some row \<Rightarrow>
             io_bind (delete_job_from_google_sheets (user_email row) (job_link row)) (\<lambda>sheet_msg.
             io_bind (print (''Google Sheets: '' @ sheet_msg)) (\<lambda>_.
             io_return (''Job application deleted successfully ('' @ sheet_msg @ '')'')))
               (w\<lparr>job_applications := filter (\<lambda>j. job_id j \<noteq> i) (job_applications w)\<rparr>)))"

subsubsection \<open>The reset script\<close>


subsection \<open>Predicates on an operation\<close>

text \<open>
  \<open>same_store\<close>: the three tables and their counters are equal; \<open>keeps_store\<close>: an
  operation changes none of them; \<open>never_raises\<close>: it returns a value from every state.
\<close>

definition same_store :: "world \<Rightarrow> world \<Rightarrow> bool" where
  "same_store w w' \<longleftrightarrow>
     users w' = users w \<and> user_profiles w' = user_profiles w \<and>
     job_applications w' = job_applications w \<and>
     seq_users w' = seq_users w \<and> seq_profiles w' = seq_profiles w \<and> seq_jobs w' = seq_jobs w"

definition keeps_store :: "'a io \<Rightarrow> bool" where
  "keeps_store m \<longleftrightarrow> (\<forall>w. same_store w (snd (m w)))"

definition never_raises :: "'a io \<Rightarrow> bool" where
  "never_raises m \<longleftrightarrow> (\<forall>w. \<exists>x w'. m w = (Inr x, w'))"

subsection \<open>Sample data\<close>

text \<open>
  One instance of the libraries and a few states, on which the theorems are
  evaluated: an address is valid when it has an at sign, the hash is the salt, a
  dollar sign and the password.
\<close>

definition sample_libs :: libs where
  "sample_libs =
     \<lparr>valid_email = (\<lambda>s. CHR ''@'' \<in> set s),
      gensalt = str_nat,
      hashpw = (\<lambda>password salt. salt @ CHR ''$'' # password),
      checkpw = (\<lambda>password hash. dropWhile (\<lambda>c. c \<noteq> CHR ''$'') hash = CHR ''$'' # password),
      isoformat = str_int,
      fromisoformat = (\<lambda>s. if s = [] then None else Some 0)\<rparr>"

definition empty_world :: world where
  "empty_world =
     \<lparr>users = [], user_profiles = [], job_applications = [],
      seq_users = 0, seq_profiles = 0, seq_jobs = 0,
      sheet = [], faults = [], trace = [], clock = 0, entropy = 0, stdout = []\<rparr>"

definition sample_job :: "int \<Rightarrow> string \<Rightarrow> string \<Rightarrow> job" where
  "sample_job i ue jl =
     \<lparr>job_id = i, user_email = ue, job_link = jl, company_name = ''Acme'',
      job_role = ''Engineer'', job_location = ''Pune'', status = ''Applied'',
      recruiter_name = [], recruiter_email = [], recruiter_phone = [],
      comments = [], created_at = ''0''\<rparr>"

definition three_jobs :: world where
  "three_jobs =
     empty_world
       \<lparr>job_applications :=
          [sample_job 1 ''a@x.com'' ''http://job/1'',
           sample_job 2 ''b@x.com'' ''http://job/1'',
           sample_job 3 ''a@x.com'' ''http://job/2''],
        seq_jobs := 3\<rparr>"

definition sample_profile :: "int \<Rightarrow> string \<Rightarrow> string \<Rightarrow> profile" where
  "sample_profile i ue name =
     \<lparr>profile_id = i, p_user_email = ue, first_name = name, last_name = [],
      address = [], city = ''Pune'', mobile_number = [], github_url = [],
      job_position = [], experience_months = 12, skills = [],
      preferred_locations = [], profile_created_at = ''0''\<rparr>"

definition three_profiles :: world where
  "three_profiles =
     empty_world
       \<lparr>user_profiles :=
          [sample_profile 1 ''a@x.com'' ''Asha'',
           sample_profile 2 ''b@x.com'' ''Bala'',
           sample_profile 3 ''a@x.com'' ''Asha K''],
        seq_profiles := 3\<rparr>"

text \<open>
  Two profile dictionaries: one with 24 months of experience, one with 2 ^ 63 months,
  which no INTEGER of SQLite holds.
\<close>

definition city_update :: profile_data where
  "city_update = \<lparr>form_text = [''city'' \<mapsto> ''Delhi''], form_experience_months = Some 24\<rparr>"

definition overflowing_update :: profile_data where
  "overflowing_update =
     \<lparr>form_text = [''city'' \<mapsto> ''Delhi''], form_experience_months = Some 9223372036854775808\<rparr>"

definition one_user :: world where
  "one_user =
     empty_world
       \<lparr>users := [\<lparr>user_id = 1, email = ''a@x.com'', password_hash = ''0$password1'',
                   user_created_at = ''0''\<rparr>],
        seq_users := 1, entropy := 1\<rparr>"


definition sample_data :: dict where
  "sample_data = [''user_email'' \<mapsto> ''a@x.com'', ''job_link'' \<mapsto> ''http://job/1'']"

subsection \<open>A transport that does not fail\<close>

text \<open>
  \<open>reliable\<close>: no coming transport call raises.  \<open>completed cs w\<close> is the state after the
  calls \<open>cs\<close> have completed one after the other from \<open>w\<close>.
\<close>

definition reliable :: "world \<Rightarrow> bool" where
  "reliable w \<longleftrightarrow> list_all (\<lambda>f. f = None) (faults w)"

definition completed :: "gs_call list \<Rightarrow> world \<Rightarrow> world" where
  "completed cs w =
     w\<lparr>sheet := fold effect cs (sheet w),
       faults := drop (length cs) (faults w),
       trace := trace w @ cs\<rparr>"

text \<open>
  Worksheets: one whose first row is the header list followed by one more column, one
  whose first row is another header.
\<close>

definition extra_column_sheet :: world where
  "extra_column_sheet =
     empty_world
       \<lparr>sheet := [headers @ [''Notes''], sheet_row sample_data 0 ''0'' @ [''call back'']]\<rparr>"

definition stale_header_sheet :: world where
  "stale_header_sheet =
     empty_world\<lparr>sheet := [[''Email'', ''Link''], [''a@x.com'', ''http://job/1'']]\<rparr>"

text \<open>A worksheet with the header row and four data rows of two cells.\<close>

definition mirror_sheet :: world where
  "mirror_sheet =
     empty_world
       \<lparr>sheet :=
          [headers,
           [''a@x.com'', ''http://job/1''],
           [''b@x.com'', ''http://job/1''],
           [''a@x.com'', ''http://job/1''],
           [''a@x.com'', ''http://job/2'']]\<rparr>"

section \<open>Properties\<close>

subsection \<open>The mirror leaves the tables alone and returns a message\<close>

lemma same_store_refl [simp]: "same_store w w"
  by (simp add: same_store_def)

lemma same_store_trans: "same_store a b \<Longrightarrow> same_store b c \<Longrightarrow> same_store a c"
  by (simp add: same_store_def)

lemma keeps_store_return [simp]: "keeps_store (io_return x)"
  by (simp add: keeps_store_def io_return_def)

lemma keeps_store_raise [simp]: "keeps_store (io_raise e)"
  by (simp add: keeps_store_def io_raise_def)

lemma keeps_store_print [simp]: "keeps_store (print s)"
  by (simp add: keeps_store_def print_def same_store_def)

lemma keeps_store_utcnow [simp]: "keeps_store utcnow"
  by (simp add: keeps_store_def utcnow_def)

lemma keeps_store_transport [simp]: "keeps_store (transport c)"
  by (simp add: keeps_store_def transport_def same_store_def split: list.split option.split)

lemma keeps_store_bind:
  assumes "keeps_store m" and "\<And>x. keeps_store (f x)"
  shows "keeps_store (io_bind m f)"
  unfolding keeps_store_def
proof
  fix w
  obtain r w1 where m: "m w = (r, w1)" by (cases "m w")
  from assms(1) m have s1: "same_store w w1" by (auto simp: keeps_store_def dest: spec [of _ w])
  show "same_store w (snd (io_bind m f w))"
  proof (cases r)
    case (Inl e)
    with m s1 show ?thesis by (simp add: io_bind_def)
  next
    case (Inr x)
    from assms(2) [of x] have "same_store w1 (snd (f x w1))" by (simp add: keeps_store_def)
    with s1 m Inr show ?thesis by (auto simp: io_bind_def intro: same_store_trans)
  qed
qed

lemma keeps_store_try:
  assumes "keeps_store m" and "\<And>e. keeps_store (h e)"
  shows "keeps_store (try_except m h)"
  unfolding keeps_store_def
proof
  fix w
  obtain r w1 where m: "m w = (r, w1)" by (cases "m w")
  from assms(1) m have s1: "same_store w w1" by (auto simp: keeps_store_def dest: spec [of _ w])
  show "same_store w (snd (try_except m h w))"
  proof (cases r)
    case (Inr x)
    with m s1 show ?thesis by (simp add: try_except_def)
  next
    case (Inl e)
    from assms(2) [of e] have "same_store w1 (snd (h e w1))" by (simp add: keeps_store_def)
    with s1 m Inl show ?thesis by (auto simp: try_except_def intro: same_store_trans)
  qed
qed

lemma keeps_store_open_sheet [simp]: "keeps_store open_sheet"
  by (simp add: open_sheet_def keeps_store_bind)

lemma keeps_store_get_all_values [simp]: "keeps_store get_all_values"
  unfolding get_all_values_def
proof (rule keeps_store_bind)
  show "keeps_store (transport GetAllValues)" by simp
  show "keeps_store (\<lambda>w. (Inr (sheet w), w))" for x :: unit by (simp add: keeps_store_def)
qed

lemma keeps_store_delete_each [simp]: "keeps_store (delete_each is)"
  by (induction "is") (simp_all add: keeps_store_bind delete_rows_def)

lemma keeps_store_parse_iso [simp]: "keeps_store (parse_iso L s)"
  by (simp add: parse_iso_def split: option.split)

lemma keeps_store_delete_job_try: "keeps_store (delete_job_try ue jl)"
  unfolding delete_job_try_def
  by (intro keeps_store_bind) (auto simp: Let_def keeps_store_bind split: option.split)

lemma keeps_store_delete_job: "keeps_store (delete_job_from_google_sheets ue jl)"
  unfolding delete_job_from_google_sheets_def
  by (intro keeps_store_try keeps_store_bind keeps_store_delete_job_try) simp_all

lemma keeps_store_append_job_try: "keeps_store (append_job_try L data c)"
  unfolding append_job_try_def
  by (intro keeps_store_bind) (auto simp: keeps_store_bind append_row_def clear_def)

lemma keeps_store_append_job: "keeps_store (append_job_to_google_sheets L data c)"
  unfolding append_job_to_google_sheets_def
  by (intro keeps_store_try keeps_store_bind keeps_store_append_job_try) simp_all

lemma never_raises_try:
  assumes "\<And>e. never_raises (h e)"
  shows "never_raises (try_except m h)"
  unfolding never_raises_def
proof
  fix w
  obtain r w1 where m: "m w = (r, w1)" by (cases "m w")
  show "\<exists>x w'. try_except m h w = (Inr x, w')"
  proof (cases r)
    case (Inr x)
    with m show ?thesis by (simp add: try_except_def)
  next
    case (Inl e)
    from assms [of e] have "\<exists>x w'. h e w1 = (Inr x, w')"
      unfolding never_raises_def by blast
    then obtain x w' where "h e w1 = (Inr x, w')" by blast
    with m Inl show ?thesis by (simp add: try_except_def)
  qed
qed

lemma never_raises_print_return: "never_raises (io_bind (print s) (\<lambda>_. io_return x))"
  by (simp add: never_raises_def io_bind_def print_def io_return_def)

lemma never_raises_delete_job: "never_raises (delete_job_from_google_sheets ue jl)"
  unfolding delete_job_from_google_sheets_def
  by (rule never_raises_try) (rule never_raises_print_return)

lemma never_raises_append_job: "never_raises (append_job_to_google_sheets L data c)"
  unfolding append_job_to_google_sheets_def
  by (rule never_raises_try) (rule never_raises_print_return)

subsection \<open>Queries on a table\<close>

lemma fetchone_filter_None:
  "fetchone (filter P xs) = None \<longleftrightarrow> (\<forall>x\<in>set xs. \<not> P x)"
proof (cases "filter P xs")
  case Nil
  then show ?thesis by (simp add: fetchone_def filter_empty_conv)
next
  case (Cons a as)
  then have "a \<in> set (filter P xs)" by simp
  then have "\<exists>x\<in>set xs. P x" by auto
  with Cons show ?thesis by (simp add: fetchone_def)
qed

lemma filter_key_unique:
  "distinct (map key xs) \<Longrightarrow> x \<in> set xs \<Longrightarrow> filter (\<lambda>y. key y = key x) xs = [x]"
proof (induction xs)
  case Nil
  then show ?case by simp
next
  case (Cons a xs)
  show ?case
  proof (cases "a = x")
    case True
    with Cons.prems have "key x \<notin> key ` set xs" by simp
    then have "\<forall>y\<in>set xs. key y \<noteq> key x" by (metis imageI)
    then have "filter (\<lambda>y. key y = key x) xs = []" by (simp add: filter_empty_conv)
    with True show ?thesis by simp
  next
    case False
    with Cons.prems have "x \<in> set xs" "key a \<noteq> key x" by auto
    with Cons show ?thesis by simp
  qed
qed

lemma filter_key_remove1:
  "distinct (map key xs) \<Longrightarrow> x \<in> set xs \<Longrightarrow> filter (\<lambda>y. key y \<noteq> key x) xs = remove1 x xs"
proof (induction xs)
  case Nil
  then show ?case by simp
next
  case (Cons a xs)
  show ?case
  proof (cases "a = x")
    case True
    with Cons.prems have "key x \<notin> key ` set xs" by simp
    then have "\<forall>y\<in>set xs. key y \<noteq> key x" by (metis imageI)
    then have "filter (\<lambda>y. key y \<noteq> key x) xs = xs" by (simp add: filter_id_conv)
    with True show ?thesis by simp
  next
    case False
    with Cons.prems have "x \<in> set xs" "key a \<noteq> key x" by auto
    with Cons False show ?thesis by simp
  qed
qed

lemma map_key_update:
  "distinct (map key xs) \<Longrightarrow> x \<in> set xs \<Longrightarrow>
   map (\<lambda>y. if key y = key x then f y else y) xs = map (\<lambda>y. if y = x then f x else y) xs"
  by (rule map_cong) (auto simp: distinct_map inj_on_def)

lemma order_by_desc_set [simp]: "set (order_by_desc key xs) = set xs"
  by (simp add: order_by_desc_def)

lemma order_by_desc_length [simp]: "length (order_by_desc key xs) = length xs"
  by (simp add: order_by_desc_def)

lemma order_by_desc_sorted:
  "sorted_wrt (\<lambda>a b. key a \<ge> key b) (order_by_desc key xs)"
proof -
  have "sorted (map key (sort_key key xs))" by simp
  then have "sorted_wrt (\<lambda>a b. key a \<le> key b) (sort_key key xs)"
    by (simp add: sorted_wrt_map)
  then show ?thesis
    by (simp add: order_by_desc_def sorted_wrt_rev)
qed

lemma order_by_desc_distinct:
  "distinct (map key xs) \<Longrightarrow> distinct (map key (order_by_desc key xs))"
  by (simp add: order_by_desc_def rev_map [symmetric] distinct_map inj_on_def)

lemma sorted_wrt_desc_strict:
  fixes key :: "'a \<Rightarrow> int"
  shows "sorted_wrt (\<lambda>a b. key b \<le> key a) ys \<Longrightarrow> distinct (map key ys) \<Longrightarrow>
         sorted_wrt (\<lambda>a b. key b < key a) ys"
proof (induction ys)
  case Nil
  then show ?case by simp
next
  case (Cons a ys)
  have "key y < key a" if "y \<in> set ys" for y
  proof -
    from Cons.prems that have "key y \<le> key a" by simp
    moreover from Cons.prems that have "key y \<noteq> key a" by (metis distinct.simps(2) imageI list.simps(9) list.set_map)
    ultimately show ?thesis by simp
  qed
  with Cons show ?case by simp
qed

lemma order_by_desc_strict:
  assumes "distinct (map key xs)"
  shows "sorted_wrt (\<lambda>a b. key b < key a) (order_by_desc key xs)"
  using order_by_desc_sorted [of key xs] order_by_desc_distinct [OF assms]
  by (rule sorted_wrt_desc_strict)

lemma fetchone_order_by_desc:
  assumes "xs \<noteq> []"
  shows "\<exists>r. fetchone (order_by_desc key xs) = Some r \<and> r \<in> set xs \<and> (\<forall>x\<in>set xs. key x \<le> key r)"
proof -
  from assms have "order_by_desc key xs \<noteq> []"
    using order_by_desc_length [of key xs] by (metis length_0_conv)
  then obtain r rs where ys: "order_by_desc key xs = r # rs" by (cases "order_by_desc key xs") auto
  have "set (r # rs) = set xs" using ys order_by_desc_set [of key xs] by simp
  moreover have "\<forall>x\<in>set rs. key x \<le> key r"
    using order_by_desc_sorted [of key xs] ys by simp
  ultimately show ?thesis using ys by (auto simp: fetchone_def)
qed

subsection \<open>Job applications\<close>

text \<open>
  C5, as amended.  For an id that fits a 64-bit integer: deleting by an id that no row
  has returns \<open>No such job record found.\<close> and leaves the whole state as it was.  When a
  row has the id (ids are the primary key, so they are distinct), exactly that row is
  removed from \<open>job_applications\<close>, the mirror delete runs on the state after the removal
  with the \<open>user_email\<close> and \<open>job_link\<close> of that row, returns a message, leaves the table
  alone, and its message is printed and put into the result.
\<close>

theorem delete_job_application_by_id_spec:
  "(sqlite_int i \<and> (\<forall>j\<in>set (job_applications w). job_id j \<noteq> i) \<longrightarrow>
      delete_job_application_by_id i w = (Inr ''No such job record found.'', w)) \<and>
   (sqlite_int i \<and> distinct (map job_id (job_applications w)) \<and>
    row \<in> set (job_applications w) \<and> job_id row = i \<longrightarrow>
      (\<exists>msg w1.
         delete_job_from_google_sheets (user_email row) (job_link row)
           (w\<lparr>job_applications := remove1 row (job_applications w)\<rparr>) = (Inr msg, w1) \<and>
         job_applications w1 = remove1 row (job_applications w) \<and>
         delete_job_application_by_id i w =
           (Inr (''Job application deleted successfully ('' @ msg @ '')''),
            w1\<lparr>stdout := stdout w1 @ [''Google Sheets: '' @ msg]\<rparr>)))"
proof -
  have c1: "sqlite_int i \<and> (\<forall>j\<in>set (job_applications w). job_id j \<noteq> i) \<longrightarrow>
      delete_job_application_by_id i w = (Inr ''No such job record found.'', w)"
  proof (rule impI)
    assume a: "sqlite_int i \<and> (\<forall>j\<in>set (job_applications w). job_id j \<noteq> i)"
    then have "fetchone (filter (\<lambda>j. job_id j = i) (job_applications w)) = None"
      unfolding fetchone_filter_None by simp
    with a show "delete_job_application_by_id i w = (Inr ''No such job record found.'', w)"
      by (simp add: delete_job_application_by_id_def)
  qed
  have c2: "sqlite_int i \<and> distinct (map job_id (job_applications w)) \<and>
    row \<in> set (job_applications w) \<and> job_id row = i \<longrightarrow>
      (\<exists>msg w1.
         delete_job_from_google_sheets (user_email row) (job_link row)
           (w\<lparr>job_applications := remove1 row (job_applications w)\<rparr>) = (Inr msg, w1) \<and>
         job_applications w1 = remove1 row (job_applications w) \<and>
         delete_job_application_by_id i w =
           (Inr (''Job application deleted successfully ('' @ msg @ '')''),
            w1\<lparr>stdout := stdout w1 @ [''Google Sheets: '' @ msg]\<rparr>))"
  proof (rule impI)
    assume a: "sqlite_int i \<and> distinct (map job_id (job_applications w)) \<and>
      row \<in> set (job_applications w) \<and> job_id row = i"
    let ?w = "w\<lparr>job_applications := remove1 row (job_applications w)\<rparr>"
    from a have f: "filter (\<lambda>j. job_id j = i) (job_applications w) = [row]"
      using filter_key_unique [of job_id "job_applications w" row] by auto
    from a have r: "filter (\<lambda>j. job_id j \<noteq> i) (job_applications w) = remove1 row (job_applications w)"
      using filter_key_remove1 [of job_id "job_applications w" row] by auto
    have "\<exists>msg w1. delete_job_from_google_sheets (user_email row) (job_link row) ?w = (Inr msg, w1)"
      using never_raises_delete_job [of "user_email row" "job_link row"]
      unfolding never_raises_def by (rule spec)
    then obtain msg w1 where
      d: "delete_job_from_google_sheets (user_email row) (job_link row) ?w = (Inr msg, w1)"
      by (elim exE)
    have "same_store ?w (snd (delete_job_from_google_sheets (user_email row) (job_link row) ?w))"
      using keeps_store_delete_job [of "user_email row" "job_link row"]
      unfolding keeps_store_def by (rule spec)
    then have j: "job_applications w1 = remove1 row (job_applications w)"
      by (simp add: d same_store_def)
    have e: "delete_job_application_by_id i w =
        (Inr (''Job application deleted successfully ('' @ msg @ '')''),
         w1\<lparr>stdout := stdout w1 @ [''Google Sheets: '' @ msg]\<rparr>)"
      using a
      by (simp add: delete_job_application_by_id_def f r fetchone_def io_bind_def d print_def
          io_return_def)
    have "delete_job_from_google_sheets (user_email row) (job_link row) ?w = (Inr msg, w1) \<and>
         job_applications w1 = remove1 row (job_applications w) \<and>
         delete_job_application_by_id i w =
           (Inr (''Job application deleted successfully ('' @ msg @ '')''),
            w1\<lparr>stdout := stdout w1 @ [''Google Sheets: '' @ msg]\<rparr>)"
      by (intro conjI d j e)
    then show "\<exists>msg w1.
         delete_job_from_google_sheets (user_email row) (job_link row) ?w = (Inr msg, w1) \<and>
         job_applications w1 = remove1 row (job_applications w) \<and>
         delete_job_application_by_id i w =
           (Inr (''Job application deleted successfully ('' @ msg @ '')''),
            w1\<lparr>stdout := stdout w1 @ [''Google Sheets: '' @ msg]\<rparr>)"
      by (intro exI [of _ msg] exI [of _ w1])
  qed
  show ?thesis by (rule conjI [OF c1 c2])
qed

text \<open>
  C10.  \<open>update_job_application\<close> changes nothing but \<open>job_applications\<close>, whose length it
  keeps.  A row with the given id (a stored id is a 64-bit integer) gets the nine fields
  from the dictionary, an absent key giving the empty string, and keeps its id,
  \<open>user_email\<close> and \<open>created_at\<close>; a row with another id is unchanged.  No condition on
  the other rows' links is involved: the update is not refused for a link the user
  already has.  The call returns \<open>Job updated locally.\<close> for an id that fits a 64-bit
  integer; for another id, which no row can have, it raises and leaves the state as it
  was.
\<close>

theorem update_job_application_frame:
  "(sqlite_int i \<longrightarrow> fst (update_job_application i data w) = Inr ''Job updated locally.'') \<and>
   (\<not> sqlite_int i \<longrightarrow> update_job_application i data w = (Inl int_overflow, w)) \<and>
   snd (update_job_application i data w) =
     w\<lparr>job_applications := job_applications (snd (update_job_application i data w))\<rparr> \<and>
   length (job_applications (snd (update_job_application i data w))) = length (job_applications w) \<and>
   (\<forall>k < length (job_applications w).
      let old = job_applications w ! k;
          new = job_applications (snd (update_job_application i data w)) ! k
      in if job_id old = i
         then sqlite_int (job_id old) \<longrightarrow>
              job_link new = get data ''job_link'' [] \<and>
              company_name new = get data ''company_name'' [] \<and>
              job_role new = get data ''job_role'' [] \<and>
              job_location new = get data ''job_location'' [] \<and>
              status new = get data ''status'' [] \<and>
              recruiter_name new = get data ''recruiter_name'' [] \<and>
              recruiter_email new = get data ''recruiter_email'' [] \<and>
              recruiter_phone new = get data ''recruiter_phone'' [] \<and>
              comments new = get data ''comments'' [] \<and>
              job_id new = job_id old \<and> user_email new = user_email old \<and>
              created_at new = created_at old
         else new = old)"
  by (simp add: update_job_application_def set_job_def Let_def)

text \<open>
  C8.  \<open>get_user_applications\<close> returns one dictionary for each row whose \<open>user_email\<close>
  is the given one and for no other row, each row once, in strictly descending order of
  id; the dictionary of a row holds its id and its ten other columns under the eleven
  keys of the query, and no \<open>user_email\<close>.
\<close>

theorem get_user_applications_spec:
  "distinct (map job_id (job_applications w)) \<Longrightarrow>
   \<exists>rows. set rows = {j \<in> set (job_applications w). user_email j = ue} \<and>
          distinct rows \<and>
          sorted_wrt (\<lambda>a b. job_id a > job_id b) rows \<and>
          get_user_applications ue w =
            map (\<lambda>row.
                  [''id'' \<mapsto> Integer (job_id row),
                   ''job_link'' \<mapsto> Text (job_link row),
                   ''company_name'' \<mapsto> Text (company_name row),
                   ''job_role'' \<mapsto> Text (job_role row),
                   ''job_location'' \<mapsto> Text (job_location row),
                   ''status'' \<mapsto> Text (status row),
                   ''recruiter_name'' \<mapsto> Text (recruiter_name row),
                   ''recruiter_email'' \<mapsto> Text (recruiter_email row),
                   ''recruiter_phone'' \<mapsto> Text (recruiter_phone row),
                   ''comments'' \<mapsto> Text (comments row),
                   ''created_at'' \<mapsto> Text (created_at row)]) rows"
proof -
  assume d: "distinct (map job_id (job_applications w))"
  let ?f = "filter (\<lambda>j. user_email j = ue) (job_applications w)"
  let ?rows = "select_user_applications ue w"
  let ?dict = "\<lambda>row.
                  [''id'' \<mapsto> Integer (job_id row),
                   ''job_link'' \<mapsto> Text (job_link row),
                   ''company_name'' \<mapsto> Text (company_name row),
                   ''job_role'' \<mapsto> Text (job_role row),
                   ''job_location'' \<mapsto> Text (job_location row),
                   ''status'' \<mapsto> Text (status row),
                   ''recruiter_name'' \<mapsto> Text (recruiter_name row),
                   ''recruiter_email'' \<mapsto> Text (recruiter_email row),
                   ''recruiter_phone'' \<mapsto> Text (recruiter_phone row),
                   ''comments'' \<mapsto> Text (comments row),
                   ''created_at'' \<mapsto> Text (created_at row)]"
  from d have df: "distinct (map job_id ?f)" by (rule distinct_map_filter)
  have "application_dict = ?dict"
    by (rule ext) (simp only: application_dict_def)
  then have 1: "get_user_applications ue w = map ?dict ?rows"
    by (simp only: get_user_applications_def)
  have 2: "set ?rows = {j \<in> set (job_applications w). user_email j = ue}"
    by (auto simp: select_user_applications_def)
  have "distinct (map job_id ?rows)"
    unfolding select_user_applications_def using df by (rule order_by_desc_distinct)
  then have 3: "distinct ?rows" by (simp add: distinct_map)
  have 4: "sorted_wrt (\<lambda>a b. job_id a > job_id b) ?rows"
    unfolding select_user_applications_def using df by (rule order_by_desc_strict)
  have "set ?rows = {j \<in> set (job_applications w). user_email j = ue} \<and>
          distinct ?rows \<and> sorted_wrt (\<lambda>a b. job_id a > job_id b) ?rows \<and>
          get_user_applications ue w = map ?dict ?rows"
    by (intro conjI 1 2 3 4)
  then show ?thesis by (rule exI [of _ ?rows])
qed

lemma two_rows_descending:
  fixes key :: "'a \<Rightarrow> int"
  assumes s: "set rows = {a, b}" and d: "distinct rows"
    and o: "sorted_wrt (\<lambda>x y. key y < key x) rows" and k: "key b < key a"
  shows "rows = [a, b]"
proof -
  from k have ne: "a \<noteq> b" by auto
  have "length rows = card (set rows)" using d by (simp add: distinct_card)
  also have "\<dots> = 2" using s ne by simp
  finally have "length rows = 2" .
  then obtain x y where xy: "rows = [x, y]"
    by (cases rows; cases "tl rows") auto
  with s have "{x, y} = {a, b}" by simp
  then have "x = a \<and> y = b \<or> x = b \<and> y = a" by (simp add: doubleton_eq_iff)
  moreover from o xy have "key y < key x" by simp
  ultimately have "x = a \<and> y = b" using k by auto
  with xy show ?thesis by simp
qed

lemma sqlite_int_small: "sqlite_int 1" "sqlite_int 2" "sqlite_int 3" "sqlite_int 9"
  by (simp_all add: sqlite_int_def)

lemma sqlite_int_two_63: "\<not> sqlite_int 9223372036854775808"
  by (simp add: sqlite_int_def)

text \<open>
  The id 2 ^ 63 is the id of no row, and deleting by it raises instead of returning the
  not-found message.
\<close>

theorem delete_job_application_by_id_overflow_counterexample:
  "9223372036854775808 \<notin> set (map job_id (job_applications three_jobs)) \<and>
   delete_job_application_by_id 9223372036854775808 three_jobs =
     (Inl (OverflowError ''Python int too large to convert to SQLite INTEGER''), three_jobs)"
proof -
  have 1: "9223372036854775808 \<notin> set (map job_id (job_applications three_jobs))"
    by (simp add: three_jobs_def sample_job_def)
  have 2: "delete_job_application_by_id 9223372036854775808 three_jobs =
     (Inl (OverflowError ''Python int too large to convert to SQLite INTEGER''), three_jobs)"
    by (simp add: delete_job_application_by_id_def sqlite_int_two_63 int_overflow_def)
  show ?thesis by (rule conjI [OF 1 2])
qed

theorem delete_job_application_by_id_witness:
  "9 \<notin> set (map job_id (job_applications three_jobs)) \<and>
   delete_job_application_by_id 9 three_jobs = (Inr ''No such job record found.'', three_jobs) \<and>
   distinct (map job_id (job_applications three_jobs)) \<and>
   sample_job 2 ''b@x.com'' ''http://job/1'' \<in> set (job_applications three_jobs) \<and>
   job_applications (snd (delete_job_application_by_id 2 three_jobs)) =
     [sample_job 1 ''a@x.com'' ''http://job/1'', sample_job 3 ''a@x.com'' ''http://job/2'']"
proof -
  let ?row = "sample_job 2 ''b@x.com'' ''http://job/1''"
  have h0: "9 \<notin> set (map job_id (job_applications three_jobs))"
    by (simp add: three_jobs_def sample_job_def)
  have h1: "sqlite_int 9 \<and> (\<forall>j\<in>set (job_applications three_jobs). job_id j \<noteq> 9)"
    by (simp add: three_jobs_def sample_job_def sqlite_int_small)
  have h2: "distinct (map job_id (job_applications three_jobs))"
    by (simp add: three_jobs_def sample_job_def)
  have h3: "?row \<in> set (job_applications three_jobs)"
    by (simp add: three_jobs_def)
  have h4: "job_id ?row = 2" by (simp add: sample_job_def)
  have h5: "sqlite_int 2 \<and> distinct (map job_id (job_applications three_jobs)) \<and>
      ?row \<in> set (job_applications three_jobs) \<and> job_id ?row = 2"
    by (intro conjI sqlite_int_small h2 h3 h4)
  have r: "remove1 ?row (job_applications three_jobs) =
      [sample_job 1 ''a@x.com'' ''http://job/1'', sample_job 3 ''a@x.com'' ''http://job/2'']"
    by (simp add: three_jobs_def sample_job_def)
  have c1: "delete_job_application_by_id 9 three_jobs = (Inr ''No such job record found.'', three_jobs)"
    by (rule delete_job_application_by_id_spec [of 9 three_jobs ?row, THEN conjunct1, THEN mp, OF h1])
  from delete_job_application_by_id_spec [of 2 three_jobs ?row, THEN conjunct2, THEN mp, OF h5]
  obtain msg w1 where "job_applications w1 = remove1 ?row (job_applications three_jobs)"
    and "delete_job_application_by_id 2 three_jobs =
           (Inr (''Job application deleted successfully ('' @ msg @ '')''),
            w1\<lparr>stdout := stdout w1 @ [''Google Sheets: '' @ msg]\<rparr>)"
    by (elim exE conjE)
  then have c2: "job_applications (snd (delete_job_application_by_id 2 three_jobs)) =
      remove1 ?row (job_applications three_jobs)" by simp
  show ?thesis by (intro conjI h0 c1 h2 h3 c2 [unfolded r])
qed

theorem update_job_application_frame_witness:
  "fst (update_job_application 2 [''job_link'' \<mapsto> ''http://job/7''] three_jobs) =
     Inr ''Job updated locally.'' \<and>
   job_applications (snd (update_job_application 2 [''job_link'' \<mapsto> ''http://job/7''] three_jobs)) ! 0 =
     sample_job 1 ''a@x.com'' ''http://job/1'' \<and>
   job_link (job_applications
     (snd (update_job_application 2 [''job_link'' \<mapsto> ''http://job/7''] three_jobs)) ! 1) = ''http://job/7'' \<and>
   company_name (job_applications
     (snd (update_job_application 2 [''job_link'' \<mapsto> ''http://job/7''] three_jobs)) ! 1) = [] \<and>
   user_email (job_applications
     (snd (update_job_application 2 [''job_link'' \<mapsto> ''http://job/7''] three_jobs)) ! 1) = ''b@x.com''"
proof -
  let ?data = "[''job_link'' \<mapsto> ''http://job/7'']"
  note t = update_job_application_frame [of 2 ?data three_jobs]
  have l: "length (job_applications three_jobs) = 3" by (simp add: three_jobs_def)
  have k0: "job_applications three_jobs ! 0 = sample_job 1 ''a@x.com'' ''http://job/1''"
    and k1: "job_applications three_jobs ! Suc 0 = sample_job 2 ''b@x.com'' ''http://job/1''"
    by (simp_all add: three_jobs_def)
  have c0: "fst (update_job_application 2 ?data three_jobs) = Inr ''Job updated locally.''"
    by (rule t [THEN conjunct1, THEN mp, OF sqlite_int_small(2)])
  note all = t [THEN conjunct2, THEN conjunct2, THEN conjunct2, THEN conjunct2]
  from all l have a0: "job_applications (snd (update_job_application 2 ?data three_jobs)) ! 0 =
      sample_job 1 ''a@x.com'' ''http://job/1''"
    by (auto simp: k0 Let_def sample_job_def dest!: spec [of _ 0])
  from all l have a1: "job_link (job_applications (snd (update_job_application 2 ?data three_jobs)) ! 1) = ''http://job/7''
     \<and> company_name (job_applications (snd (update_job_application 2 ?data three_jobs)) ! 1) = []
     \<and> user_email (job_applications (snd (update_job_application 2 ?data three_jobs)) ! 1) = ''b@x.com''"
    by (auto simp: k1 Let_def sample_job_def get_def sqlite_int_def dest!: spec [of _ 1])
  from c0 a0 a1 show ?thesis by simp
qed

text \<open>No uniqueness check: the update gives two rows of one user the same link.\<close>

lemma update_job_application_duplicates_link:
  "map (\<lambda>j. (user_email j, job_link j))
     (job_applications (snd (update_job_application 3 [''job_link'' \<mapsto> ''http://job/1''] three_jobs))) =
   [(''a@x.com'', ''http://job/1''), (''b@x.com'', ''http://job/1''), (''a@x.com'', ''http://job/1'')]"
  by (simp add: update_job_application_def three_jobs_def sample_job_def set_job_def get_def
      sqlite_int_small)

theorem get_user_applications_witness:
  "distinct (map job_id (job_applications three_jobs)) \<and>
   map (\<lambda>d. (d ''id'', d ''job_link'', d ''user_email''))
     (get_user_applications ''a@x.com'' three_jobs) =
     [(Some (Integer 3), Some (Text ''http://job/2''), None),
      (Some (Integer 1), Some (Text ''http://job/1''), None)]"
proof -
  let ?j1 = "sample_job 1 ''a@x.com'' ''http://job/1''"
  let ?j2 = "sample_job 2 ''b@x.com'' ''http://job/1''"
  let ?j3 = "sample_job 3 ''a@x.com'' ''http://job/2''"
  have h: "distinct (map job_id (job_applications three_jobs))"
    by (simp add: three_jobs_def sample_job_def)
  have js: "job_applications three_jobs = [?j1, ?j2, ?j3]" by (simp add: three_jobs_def)
  have ue: "user_email ?j1 = ''a@x.com''" "user_email ?j2 = ''b@x.com''" "user_email ?j3 = ''a@x.com''"
    by (simp_all add: sample_job_def)
  have "filter (\<lambda>j. user_email j = ''a@x.com'') [?j1, ?j2, ?j3] = [?j1, ?j3]"
    by (simp add: ue)
  then have "set (filter (\<lambda>j. user_email j = ''a@x.com'') (job_applications three_jobs)) = {?j3, ?j1}"
    by (simp only: js) auto
  then have s: "{j \<in> set (job_applications three_jobs). user_email j = ''a@x.com''} = {?j3, ?j1}"
    by (simp only: set_filter)
  have k: "job_id ?j1 < job_id ?j3" by (simp add: sample_job_def)
  from get_user_applications_spec [OF h, of "''a@x.com''"]
  obtain rows where r: "set rows = {j \<in> set (job_applications three_jobs). user_email j = ''a@x.com''}"
    "distinct rows" "sorted_wrt (\<lambda>a b. job_id a > job_id b) rows"
    and g: "get_user_applications ''a@x.com'' three_jobs =
            map (\<lambda>row.
                  [''id'' \<mapsto> Integer (job_id row),
                   ''job_link'' \<mapsto> Text (job_link row),
                   ''company_name'' \<mapsto> Text (company_name row),
                   ''job_role'' \<mapsto> Text (job_role row),
                   ''job_location'' \<mapsto> Text (job_location row),
                   ''status'' \<mapsto> Text (status row),
                   ''recruiter_name'' \<mapsto> Text (recruiter_name row),
                   ''recruiter_email'' \<mapsto> Text (recruiter_email row),
                   ''recruiter_phone'' \<mapsto> Text (recruiter_phone row),
                   ''comments'' \<mapsto> Text (comments row),
                   ''created_at'' \<mapsto> Text (created_at row)]) rows"
    by (elim exE conjE)
  have "rows = [?j3, ?j1]"
    using r(1) [unfolded s] r(2) r(3) k by (rule two_rows_descending)
  with g have "map (\<lambda>d. (d ''id'', d ''job_link'', d ''user_email''))
     (get_user_applications ''a@x.com'' three_jobs) =
     [(Some (Integer 3), Some (Text ''http://job/2''), None),
      (Some (Integer 1), Some (Text ''http://job/1''), None)]"
    by (simp add: sample_job_def)
  with h show ?thesis by (rule conjI)
qed

subsection \<open>Profiles\<close>

lemma latest_profile_None:
  "(\<forall>p\<in>set (user_profiles w). p_user_email p \<noteq> ue) \<Longrightarrow> latest_profile ue w = None"
  by (simp add: latest_profile_def order_by_desc_def fetchone_def filter_empty_conv [THEN iffD2])

lemma latest_profile_Some:
  assumes d: "distinct (map profile_id (user_profiles w))"
    and p: "p \<in> set (user_profiles w)" "p_user_email p = ue"
    and m: "\<forall>q\<in>set (user_profiles w). p_user_email q = ue \<longrightarrow> profile_id q \<le> profile_id p"
  shows "latest_profile ue w = Some p"
proof -
  let ?f = "filter (\<lambda>p. p_user_email p = ue) (user_profiles w)"
  from p have ne: "?f \<noteq> []" by (auto simp: filter_empty_conv)
  from fetchone_order_by_desc [OF ne, of profile_id]
  obtain r where r: "fetchone (order_by_desc profile_id ?f) = Some r" "r \<in> set ?f"
    "\<forall>x\<in>set ?f. profile_id x \<le> profile_id r" by blast
  from p have "p \<in> set ?f" by simp
  with r(3) have "profile_id p \<le> profile_id r" by blast
  moreover from r(2) m have "profile_id r \<le> profile_id p" by simp
  ultimately have "profile_id r = profile_id p" by simp
  moreover from r(2) have "r \<in> set (user_profiles w)" by simp
  ultimately have "r = p" using d p(1) by (auto simp: distinct_map inj_on_def)
  with r(1) show ?thesis by (simp add: latest_profile_def)
qed

lemma update_profile_no_row:
  assumes "\<forall>p\<in>set (user_profiles w). p_user_email p \<noteq> ue"
  shows "snd (update_profile ue data w) = w"
    and "get_profile ue (snd (update_profile ue data w)) = Map.empty"
proof -
  from assms have n: "latest_profile ue w = None" by (rule latest_profile_None)
  then show u: "snd (update_profile ue data w) = w"
    by (simp add: update_profile_def)
  from n show "get_profile ue (snd (update_profile ue data w)) = Map.empty"
    by (simp add: u get_profile_def)
qed

text \<open>
  C9, as amended.  When the user has no profile row, \<open>update_profile\<close> leaves the state
  as it was and \<open>get_profile\<close> is still empty afterwards.  When the \<open>experience_months\<close>
  of the dictionary (0 when the key is absent) fits a 64-bit integer, the call returns
  \<open>Profile updated locally.\<close> and, for the row \<open>p\<close> of the user with the greatest id (ids
  are the primary key, so they are distinct), the table after the update is the old one
  with \<open>p\<close> replaced by \<open>set_profile data p\<close> at its place: every other row is unchanged,
  and the new row keeps the id, the email and the creation time of \<open>p\<close> and takes its ten
  data fields from the dictionary.
\<close>

theorem update_profile_spec:
  "((\<forall>p\<in>set (user_profiles w). p_user_email p \<noteq> ue) \<longrightarrow>
      snd (update_profile ue data w) = w \<and>
      get_profile ue (snd (update_profile ue data w)) = Map.empty) \<and>
   (sqlite_int (get_experience_months data) \<longrightarrow>
      fst (update_profile ue data w) = Inr ''Profile updated locally.'') \<and>
   (sqlite_int (get_experience_months data) \<and>
    distinct (map profile_id (user_profiles w)) \<and>
    p \<in> set (user_profiles w) \<and> p_user_email p = ue \<and>
    (\<forall>q\<in>set (user_profiles w). p_user_email q = ue \<longrightarrow> profile_id q \<le> profile_id p) \<longrightarrow>
      update_profile ue data w =
        (Inr ''Profile updated locally.'',
         w\<lparr>user_profiles := map (\<lambda>q. if q = p then set_profile data p else q) (user_profiles w)\<rparr>) \<and>
      profile_id (set_profile data p) = profile_id p \<and>
      p_user_email (set_profile data p) = p_user_email p \<and>
      profile_created_at (set_profile data p) = profile_created_at p \<and>
      first_name (set_profile data p) = get (form_text data) ''first_name'' [] \<and>
      last_name (set_profile data p) = get (form_text data) ''last_name'' [] \<and>
      address (set_profile data p) = get (form_text data) ''address'' [] \<and>
      city (set_profile data p) = get (form_text data) ''city'' [] \<and>
      mobile_number (set_profile data p) = get (form_text data) ''mobile_number'' [] \<and>
      github_url (set_profile data p) = get (form_text data) ''github_url'' [] \<and>
      job_position (set_profile data p) = get (form_text data) ''job_position'' [] \<and>
      experience_months (set_profile data p) = get_experience_months data \<and>
      skills (set_profile data p) = get (form_text data) ''skills'' [] \<and>
      preferred_locations (set_profile data p) = get (form_text data) ''preferred_locations'' [])"
proof -
  have c1: "(\<forall>p\<in>set (user_profiles w). p_user_email p \<noteq> ue) \<longrightarrow>
      snd (update_profile ue data w) = w \<and>
      get_profile ue (snd (update_profile ue data w)) = Map.empty"
  proof (rule impI)
    assume a: "\<forall>p\<in>set (user_profiles w). p_user_email p \<noteq> ue"
    show "snd (update_profile ue data w) = w \<and>
      get_profile ue (snd (update_profile ue data w)) = Map.empty"
      by (rule conjI [OF update_profile_no_row(1) [OF a] update_profile_no_row(2) [OF a]])
  qed
  have c2: "sqlite_int (get_experience_months data) \<longrightarrow>
      fst (update_profile ue data w) = Inr ''Profile updated locally.''"
    by (simp add: update_profile_def)
  have c3: "sqlite_int (get_experience_months data) \<and>
    distinct (map profile_id (user_profiles w)) \<and>
    p \<in> set (user_profiles w) \<and> p_user_email p = ue \<and>
    (\<forall>q\<in>set (user_profiles w). p_user_email q = ue \<longrightarrow> profile_id q \<le> profile_id p) \<longrightarrow>
      update_profile ue data w =
        (Inr ''Profile updated locally.'',
         w\<lparr>user_profiles := map (\<lambda>q. if q = p then set_profile data p else q) (user_profiles w)\<rparr>) \<and>
      profile_id (set_profile data p) = profile_id p \<and>
      p_user_email (set_profile data p) = p_user_email p \<and>
      profile_created_at (set_profile data p) = profile_created_at p \<and>
      first_name (set_profile data p) = get (form_text data) ''first_name'' [] \<and>
      last_name (set_profile data p) = get (form_text data) ''last_name'' [] \<and>
      address (set_profile data p) = get (form_text data) ''address'' [] \<and>
      city (set_profile data p) = get (form_text data) ''city'' [] \<and>
      mobile_number (set_profile data p) = get (form_text data) ''mobile_number'' [] \<and>
      github_url (set_profile data p) = get (form_text data) ''github_url'' [] \<and>
      job_position (set_profile data p) = get (form_text data) ''job_position'' [] \<and>
      experience_months (set_profile data p) = get_experience_months data \<and>
      skills (set_profile data p) = get (form_text data) ''skills'' [] \<and>
      preferred_locations (set_profile data p) = get (form_text data) ''preferred_locations'' []"
  proof (rule impI)
    assume a: "sqlite_int (get_experience_months data) \<and>
      distinct (map profile_id (user_profiles w)) \<and>
      p \<in> set (user_profiles w) \<and> p_user_email p = ue \<and>
      (\<forall>q\<in>set (user_profiles w). p_user_email q = ue \<longrightarrow> profile_id q \<le> profile_id p)"
    then have l: "latest_profile ue w = Some p" by (intro latest_profile_Some) simp_all
    from a have "map (\<lambda>q. if profile_id q = profile_id p then set_profile data q else q) (user_profiles w) =
        map (\<lambda>q. if q = p then set_profile data p else q) (user_profiles w)"
      by (intro map_key_update) simp_all
    with l a have u: "update_profile ue data w =
        (Inr ''Profile updated locally.'',
         w\<lparr>user_profiles := map (\<lambda>q. if q = p then set_profile data p else q) (user_profiles w)\<rparr>)"
      by (simp add: update_profile_def)
    show "update_profile ue data w =
        (Inr ''Profile updated locally.'',
         w\<lparr>user_profiles := map (\<lambda>q. if q = p then set_profile data p else q) (user_profiles w)\<rparr>) \<and>
      profile_id (set_profile data p) = profile_id p \<and>
      p_user_email (set_profile data p) = p_user_email p \<and>
      profile_created_at (set_profile data p) = profile_created_at p \<and>
      first_name (set_profile data p) = get (form_text data) ''first_name'' [] \<and>
      last_name (set_profile data p) = get (form_text data) ''last_name'' [] \<and>
      address (set_profile data p) = get (form_text data) ''address'' [] \<and>
      city (set_profile data p) = get (form_text data) ''city'' [] \<and>
      mobile_number (set_profile data p) = get (form_text data) ''mobile_number'' [] \<and>
      github_url (set_profile data p) = get (form_text data) ''github_url'' [] \<and>
      job_position (set_profile data p) = get (form_text data) ''job_position'' [] \<and>
      experience_months (set_profile data p) = get_experience_months data \<and>
      skills (set_profile data p) = get (form_text data) ''skills'' [] \<and>
      preferred_locations (set_profile data p) = get (form_text data) ''preferred_locations'' []"
      by (rule conjI [OF u]) (simp add: set_profile_def)
  qed
  show ?thesis by (rule conjI [OF c1 conjI [OF c2 c3]])
qed

text \<open>
  With 2 ^ 63 months of experience in the dictionary the update raises, and the latest
  row of the user is not rewritten: its city is still the old one.
\<close>

theorem update_profile_overflow_counterexample:
  "update_profile ''a@x.com'' overflowing_update three_profiles =
     (Inl (OverflowError ''Python int too large to convert to SQLite INTEGER''), three_profiles) \<and>
   user_profiles three_profiles =
     [sample_profile 1 ''a@x.com'' ''Asha'', sample_profile 2 ''b@x.com'' ''Bala'',
      sample_profile 3 ''a@x.com'' ''Asha K''] \<and>
   city (sample_profile 3 ''a@x.com'' ''Asha K'') = ''Pune'' \<and>
   get (form_text overflowing_update) ''city'' [] = ''Delhi''"
proof -
  have o: "\<not> sqlite_int (get_experience_months overflowing_update)"
    by (simp add: get_experience_months_def overflowing_update_def sqlite_int_def)
  have 1: "update_profile ''a@x.com'' overflowing_update three_profiles =
     (Inl (OverflowError ''Python int too large to convert to SQLite INTEGER''), three_profiles)"
    by (simp add: update_profile_def o int_overflow_def)
  have 2: "user_profiles three_profiles =
     [sample_profile 1 ''a@x.com'' ''Asha'', sample_profile 2 ''b@x.com'' ''Bala'',
      sample_profile 3 ''a@x.com'' ''Asha K'']"
    by (simp add: three_profiles_def)
  have 3: "city (sample_profile 3 ''a@x.com'' ''Asha K'') = ''Pune''"
    by (simp add: sample_profile_def)
  have 4: "get (form_text overflowing_update) ''city'' [] = ''Delhi''"
    by (simp add: overflowing_update_def get_def)
  show ?thesis by (intro conjI 1 2 3 4)
qed

theorem update_profile_witness:
  "snd (update_profile ''c@x.com'' city_update three_profiles) = three_profiles \<and>
   get_profile ''c@x.com'' (snd (update_profile ''c@x.com'' city_update three_profiles)) = Map.empty \<and>
   fst (update_profile ''a@x.com'' city_update three_profiles) = Inr ''Profile updated locally.'' \<and>
   user_profiles (snd (update_profile ''a@x.com'' city_update three_profiles)) =
     [sample_profile 1 ''a@x.com'' ''Asha'', sample_profile 2 ''b@x.com'' ''Bala'',
      set_profile city_update (sample_profile 3 ''a@x.com'' ''Asha K'')] \<and>
   city (set_profile city_update (sample_profile 3 ''a@x.com'' ''Asha K'')) = ''Delhi'' \<and>
   experience_months (set_profile city_update (sample_profile 3 ''a@x.com'' ''Asha K'')) = 24 \<and>
   first_name (set_profile city_update (sample_profile 3 ''a@x.com'' ''Asha K'')) = []"
proof -
  let ?p = "sample_profile 3 ''a@x.com'' ''Asha K''"
  have ok: "sqlite_int (get_experience_months city_update)"
    by (simp add: get_experience_months_def city_update_def sqlite_int_def)
  have h1: "\<forall>p\<in>set (user_profiles three_profiles). p_user_email p \<noteq> ''c@x.com''"
    by (simp add: three_profiles_def sample_profile_def)
  have h2: "sqlite_int (get_experience_months city_update) \<and>
    distinct (map profile_id (user_profiles three_profiles)) \<and>
    ?p \<in> set (user_profiles three_profiles) \<and> p_user_email ?p = ''a@x.com'' \<and>
    (\<forall>q\<in>set (user_profiles three_profiles). p_user_email q = ''a@x.com'' \<longrightarrow> profile_id q \<le> profile_id ?p)"
    by (simp add: ok three_profiles_def sample_profile_def)
  have m: "map (\<lambda>q. if q = ?p then set_profile city_update ?p else q) (user_profiles three_profiles) =
      [sample_profile 1 ''a@x.com'' ''Asha'', sample_profile 2 ''b@x.com'' ''Bala'',
       set_profile city_update ?p]"
    by (simp add: three_profiles_def sample_profile_def)
  note t1 = update_profile_spec [of three_profiles "''c@x.com''" city_update ?p,
      THEN conjunct1, THEN mp, OF h1]
  note t2 = update_profile_spec [of three_profiles "''a@x.com''" city_update ?p,
      THEN conjunct2, THEN conjunct1, THEN mp, OF ok]
  note t3 = update_profile_spec [of three_profiles "''a@x.com''" city_update ?p,
      THEN conjunct2, THEN conjunct2, THEN mp, OF h2]
  have c3: "user_profiles (snd (update_profile ''a@x.com'' city_update three_profiles)) =
     [sample_profile 1 ''a@x.com'' ''Asha'', sample_profile 2 ''b@x.com'' ''Bala'',
      set_profile city_update ?p]"
    using t3 [THEN conjunct1] m by simp
  have g: "get (form_text city_update) ''city'' [] = ''Delhi''"
    "get (form_text city_update) ''first_name'' [] = []"
    "get_experience_months city_update = 24"
    by (simp_all add: city_update_def get_def get_experience_months_def)
  have c4: "city (set_profile city_update ?p) = ''Delhi''"
    using t3 [THEN conjunct2, THEN conjunct2, THEN conjunct2, THEN conjunct2, THEN conjunct2,
        THEN conjunct2, THEN conjunct2, THEN conjunct1]
    by (simp only: g)
  have c5: "experience_months (set_profile city_update ?p) = 24"
    using t3 [THEN conjunct2, THEN conjunct2, THEN conjunct2, THEN conjunct2, THEN conjunct2,
        THEN conjunct2, THEN conjunct2, THEN conjunct2, THEN conjunct2, THEN conjunct2,
        THEN conjunct2, THEN conjunct1]
    by (simp only: g)
  have c6: "first_name (set_profile city_update ?p) = []"
    using t3 [THEN conjunct2, THEN conjunct2, THEN conjunct2, THEN conjunct2, THEN conjunct1]
    by (simp only: g)
  show ?thesis
    by (intro conjI t1 [THEN conjunct1] t1 [THEN conjunct2] t2 c3 c4 c5 c6)
qed

text \<open>After the update \<open>get_profile\<close> returns the new city and months.\<close>

lemma get_profile_after_update:
  "get_profile ''a@x.com'' (snd (update_profile ''a@x.com'' city_update three_profiles)) ''city'' =
     Some (Text ''Delhi'') \<and>
   get_profile ''a@x.com'' (snd (update_profile ''a@x.com'' city_update three_profiles))
     ''experience_months'' = Some (Integer 24)"
  by (simp add: get_profile_def latest_profile_def order_by_desc_def fetchone_def update_profile_def
      three_profiles_def sample_profile_def set_profile_def city_update_def get_def
      get_experience_months_def sqlite_int_def empty_world_def)

subsection \<open>Registration and login\<close>

lemma login_user_unknown:
  assumes "\<forall>u\<in>set (users w). email u \<noteq> e"
  shows "login_user L e password w = ''No account found with that email.''"
proof -
  from assms have "fetchone (filter (\<lambda>u. email u = e) (users w)) = None"
    unfolding fetchone_filter_None by simp
  then show ?thesis by (simp add: login_user_def)
qed

lemma login_user_known:
  assumes "distinct (map email (users w))" "u \<in> set (users w)" "email u = e"
  shows "login_user L e password w =
        (if checkpw L password (password_hash u) then ''Login successful!''
         else ''Incorrect password.'')"
proof -
  from assms have "filter (\<lambda>v. email v = e) (users w) = [u]"
    using filter_key_unique [of email "users w" u] by auto
  then show ?thesis by (simp add: login_user_def fetchone_def)
qed

lemma login_user_success_iff:
  assumes d: "distinct (map email (users w))"
  shows "login_user L e password w = ''Login successful!'' \<longleftrightarrow>
       (\<exists>u\<in>set (users w). email u = e \<and> checkpw L password (password_hash u))"
proof (cases "\<exists>u\<in>set (users w). email u = e")
  case False
  then have "\<forall>u\<in>set (users w). email u \<noteq> e" by blast
  then have "login_user L e password w = ''No account found with that email.''"
    by (rule login_user_unknown)
  then have "login_user L e password w \<noteq> ''Login successful!''" by simp
  with False show ?thesis by blast
next
  case True
  then obtain u where u: "u \<in> set (users w)" "email u = e" by blast
  have uniq: "v = u" if "v \<in> set (users w)" "email v = e" for v
    using d u that by (auto simp: distinct_map inj_on_def)
  have l: "login_user L e password w =
        (if checkpw L password (password_hash u) then ''Login successful!''
         else ''Incorrect password.'')"
    using d u by (rule login_user_known)
  show ?thesis
  proof (cases "checkpw L password (password_hash u)")
    case True
    with l u show ?thesis by auto
  next
    case False
    with l have "login_user L e password w \<noteq> ''Login successful!''" by simp
    moreover from False uniq have "\<not> (\<exists>v\<in>set (users w). email v = e \<and> checkpw L password (password_hash v))"
      by blast
    ultimately show ?thesis by blast
  qed
qed

text \<open>
  C7.  \<open>login_user\<close> returns \<open>No account found with that email.\<close> when no user has the
  email.  For a stored user (emails are unique in the table) it returns
  \<open>Login successful!\<close> when \<open>checkpw\<close> accepts the password against the stored hash and
  \<open>Incorrect password.\<close> when it does not; so the result is the success message exactly
  when a stored user with that email passes the hash check.
\<close>

theorem login_user_spec:
  "((\<forall>u\<in>set (users w). email u \<noteq> e) \<longrightarrow>
      login_user L e password w = ''No account found with that email.'') \<and>
   (distinct (map email (users w)) \<and> u \<in> set (users w) \<and> email u = e \<longrightarrow>
      login_user L e password w =
        (if checkpw L password (password_hash u) then ''Login successful!''
         else ''Incorrect password.'')) \<and>
   (distinct (map email (users w)) \<longrightarrow>
      (login_user L e password w = ''Login successful!'' \<longleftrightarrow>
       (\<exists>u\<in>set (users w). email u = e \<and> checkpw L password (password_hash u))))"
proof (intro conjI impI)
  assume "\<forall>u\<in>set (users w). email u \<noteq> e"
  then show "login_user L e password w = ''No account found with that email.''"
    by (rule login_user_unknown)
next
  assume "distinct (map email (users w)) \<and> u \<in> set (users w) \<and> email u = e"
  then show "login_user L e password w =
        (if checkpw L password (password_hash u) then ''Login successful!''
         else ''Incorrect password.'')"
    by (intro login_user_known) simp_all
next
  assume "distinct (map email (users w))"
  then show "login_user L e password w = ''Login successful!'' \<longleftrightarrow>
       (\<exists>u\<in>set (users w). email u = e \<and> checkpw L password (password_hash u))"
    by (rule login_user_success_iff)
qed

theorem login_user_witness:
  "login_user sample_libs ''nobody@x.com'' ''password1'' one_user = ''No account found with that email.'' \<and>
   login_user sample_libs ''a@x.com'' ''password1'' one_user = ''Login successful!'' \<and>
   login_user sample_libs ''a@x.com'' ''password2'' one_user = ''Incorrect password.''"
proof -
  let ?u = "\<lparr>user_id = 1, email = ''a@x.com'', password_hash = ''0$password1'', user_created_at = ''0''\<rparr>"
  have h1: "\<forall>u\<in>set (users one_user). email u \<noteq> ''nobody@x.com''"
    by (simp add: one_user_def)
  have h2: "distinct (map email (users one_user)) \<and> ?u \<in> set (users one_user) \<and> email ?u = ''a@x.com''"
    by (simp add: one_user_def)
  have k1: "checkpw sample_libs ''password1'' (password_hash ?u) = True"
    by (simp add: sample_libs_def)
  have k2: "checkpw sample_libs ''password2'' (password_hash ?u) = False"
    by (simp add: sample_libs_def)
  have c1: "login_user sample_libs ''nobody@x.com'' ''password1'' one_user = ''No account found with that email.''"
    by (rule login_user_spec [of one_user "''nobody@x.com''" sample_libs "''password1''" ?u,
          THEN conjunct1, THEN mp, OF h1])
  have c2: "login_user sample_libs ''a@x.com'' ''password1'' one_user = ''Login successful!''"
    using login_user_spec [of one_user "''a@x.com''" sample_libs "''password1''" ?u,
          THEN conjunct2, THEN conjunct1, THEN mp, OF h2]
    by (simp only: k1 if_True)
  have c3: "login_user sample_libs ''a@x.com'' ''password2'' one_user = ''Incorrect password.''"
    using login_user_spec [of one_user "''a@x.com''" sample_libs "''password2''" ?u,
          THEN conjunct2, THEN conjunct1, THEN mp, OF h2]
    by (simp only: k2 if_False)
  show ?thesis by (intro conjI c1 c2 c3)
qed

lemma next_rowid_fresh: "next_rowid seq ids \<notin> set ids"
proof -
  have "\<forall>x\<in>set ids. x \<le> foldr max ids seq" by (induction ids) auto
  then show ?thesis by (auto simp: next_rowid_def)
qed

text \<open>
  C6, as amended.  \<open>register_user\<close> returns the format message for an address the
  validator rejects and the length message for a valid address with a password shorter
  than 8, the state unchanged in both cases.  For a valid address and a password of
  length at least 8 it returns \<open>Email already registered.\<close>, the table unchanged, when
  the address is in the table, and otherwise appends one user with that address, the
  hash of the password under a fresh salt and a new id, and reports success.
\<close>

theorem register_user_spec:
  "(\<not> valid_email L e \<longrightarrow> register_user L e password w = (''Invalid email format.'', w)) \<and>
   (valid_email L e \<and> length password < 8 \<longrightarrow>
      register_user L e password w = (''Password must be at least 8 characters.'', w)) \<and>
   (valid_email L e \<and> 8 \<le> length password \<and> e \<in> set (map email (users w)) \<longrightarrow>
      fst (register_user L e password w) = ''Email already registered.'' \<and>
      users (snd (register_user L e password w)) = users w) \<and>
   (valid_email L e \<and> 8 \<le> length password \<and> e \<notin> set (map email (users w)) \<longrightarrow>
      fst (register_user L e password w) = ''Registration successful!'' \<and>
      (\<exists>u. users (snd (register_user L e password w)) = users w @ [u] \<and>
           email u = e \<and>
           password_hash u = hashpw L password (gensalt L (entropy w)) \<and>
           user_id u \<notin> set (map user_id (users w))))"
proof (intro conjI impI)
  assume "\<not> valid_email L e"
  then show "register_user L e password w = (''Invalid email format.'', w)"
    by (simp add: register_user_def)
next
  assume "valid_email L e \<and> length password < 8"
  then show "register_user L e password w = (''Password must be at least 8 characters.'', w)"
    by (simp add: register_user_def)
next
  assume a: "valid_email L e \<and> 8 \<le> length password \<and> e \<in> set (map email (users w))"
  then have ex: "list_ex (\<lambda>u. email u = e) (users w)" by (auto simp: list_ex_iff)
  from a have l: "\<not> length password < 8" by simp
  from a ex l show "fst (register_user L e password w) = ''Email already registered.''"
    by (simp add: register_user_def Let_def)
  from a ex l show "users (snd (register_user L e password w)) = users w"
    by (simp add: register_user_def Let_def)
next
  assume a: "valid_email L e \<and> 8 \<le> length password \<and> e \<notin> set (map email (users w))"
  then have ex: "\<not> list_ex (\<lambda>u. email u = e) (users w)" by (auto simp: list_ex_iff)
  from a have l: "\<not> length password < 8" by simp
  let ?i = "next_rowid (seq_users w) (map user_id (users w))"
  let ?u = "\<lparr>user_id = ?i, email = e, password_hash = hashpw L password (gensalt L (entropy w)),
             user_created_at = isoformat L (clock w)\<rparr>"
  from a ex l show "fst (register_user L e password w) = ''Registration successful!''"
    by (simp add: register_user_def Let_def)
  from a ex l have u: "users (snd (register_user L e password w)) = users w @ [?u]"
    by (simp add: register_user_def Let_def)
  have f: "user_id ?u \<notin> set (map user_id (users w))"
    using next_rowid_fresh [of "seq_users w" "map user_id (users w)"] by simp
  have "users (snd (register_user L e password w)) = users w @ [?u] \<and>
           email ?u = e \<and>
           password_hash ?u = hashpw L password (gensalt L (entropy w)) \<and>
           user_id ?u \<notin> set (map user_id (users w))"
    using u f by simp
  then show "\<exists>u. users (snd (register_user L e password w)) = users w @ [u] \<and>
           email u = e \<and>
           password_hash u = hashpw L password (gensalt L (entropy w)) \<and>
           user_id u \<notin> set (map user_id (users w))"
    by (rule exI)
qed

text \<open>
  The duplicate message does not come whatever the password: a second registration of
  the same address with a short password gets the length message.
\<close>

theorem register_user_short_password_counterexample:
  "fst (register_user sample_libs ''a@x.com'' ''password1'' empty_world) = ''Registration successful!'' \<and>
   ''a@x.com'' \<in> set (map email (users (snd (register_user sample_libs ''a@x.com'' ''password1'' empty_world)))) \<and>
   fst (register_user sample_libs ''a@x.com'' ''short''
          (snd (register_user sample_libs ''a@x.com'' ''password1'' empty_world))) =
     ''Password must be at least 8 characters.'' \<and>
   fst (register_user sample_libs ''a@x.com'' ''short''
          (snd (register_user sample_libs ''a@x.com'' ''password1'' empty_world))) \<noteq>
     ''Email already registered.''"
  by (simp add: register_user_def sample_libs_def empty_world_def Let_def)

theorem register_user_witness:
  "register_user sample_libs ''nobody'' ''password1'' one_user = (''Invalid email format.'', one_user) \<and>
   register_user sample_libs ''a@x.com'' ''short'' one_user =
     (''Password must be at least 8 characters.'', one_user) \<and>
   fst (register_user sample_libs ''a@x.com'' ''password2'' one_user) = ''Email already registered.'' \<and>
   users (snd (register_user sample_libs ''a@x.com'' ''password2'' one_user)) = users one_user \<and>
   fst (register_user sample_libs ''b@x.com'' ''password2'' one_user) = ''Registration successful!'' \<and>
   map email (users (snd (register_user sample_libs ''b@x.com'' ''password2'' one_user))) =
     [''a@x.com'', ''b@x.com'']"
proof -
  have v1: "\<not> valid_email sample_libs ''nobody''" by (simp add: sample_libs_def)
  have v2: "valid_email sample_libs ''a@x.com'' \<and> length ''short'' < 8"
    by (simp add: sample_libs_def)
  have v3: "valid_email sample_libs ''a@x.com'' \<and> 8 \<le> length ''password2'' \<and>
      ''a@x.com'' \<in> set (map email (users one_user))"
    by (simp add: sample_libs_def one_user_def)
  have v4: "valid_email sample_libs ''b@x.com'' \<and> 8 \<le> length ''password2'' \<and>
      ''b@x.com'' \<notin> set (map email (users one_user))"
    by (simp add: sample_libs_def one_user_def)
  have m: "map email (users one_user) = [''a@x.com'']" by (simp add: one_user_def)
  have c1: "register_user sample_libs ''nobody'' ''password1'' one_user = (''Invalid email format.'', one_user)"
    by (rule register_user_spec [of sample_libs "''nobody''" "''password1''" one_user,
          THEN conjunct1, THEN mp, OF v1])
  have c2: "register_user sample_libs ''a@x.com'' ''short'' one_user =
     (''Password must be at least 8 characters.'', one_user)"
    by (rule register_user_spec [of sample_libs "''a@x.com''" "''short''" one_user,
          THEN conjunct2, THEN conjunct1, THEN mp, OF v2])
  note c3 = register_user_spec [of sample_libs "''a@x.com''" "''password2''" one_user,
          THEN conjunct2, THEN conjunct2, THEN conjunct1, THEN mp, OF v3]
  note c4 = register_user_spec [of sample_libs "''b@x.com''" "''password2''" one_user,
          THEN conjunct2, THEN conjunct2, THEN conjunct2, THEN mp, OF v4]
  from c4 [THEN conjunct2] obtain u where
    u: "users (snd (register_user sample_libs ''b@x.com'' ''password2'' one_user)) = users one_user @ [u]"
    and e: "email u = ''b@x.com''"
    by (elim exE conjE)
  have c5: "map email (users (snd (register_user sample_libs ''b@x.com'' ''password2'' one_user))) =
     [''a@x.com'', ''b@x.com'']"
    by (simp only: u map_append m e list.map append.simps)
  show ?thesis
    by (intro conjI c1 c2 c3 [THEN conjunct1] c3 [THEN conjunct2] c4 [THEN conjunct1] c5)
qed

subsection \<open>The mirror's failures and the callers\<close>

lemma try_except_raised:
  "m w = (Inl e, w1) \<Longrightarrow> try_except m h w = h e w1"
  by (simp add: try_except_def)










subsection \<open>The mirror over a transport that does not fail\<close>

lemma completed_Nil [simp]: "completed [] w = w"
  by (simp add: completed_def)

lemma completed_completed [simp]: "completed cs (completed ds w) = completed (ds @ cs) w"
  by (simp add: completed_def add.commute)

lemma completed_fields [simp]:
  "sheet (completed cs w) = fold effect cs (sheet w)"
  "trace (completed cs w) = trace w @ cs"
  "faults (completed cs w) = drop (length cs) (faults w)"
  "clock (completed cs w) = clock w"
  "stdout (completed cs w) = stdout w"
  "job_applications (completed cs w) = job_applications w"
  by (simp_all add: completed_def)

lemma reliable_completed [simp]: "reliable w \<Longrightarrow> reliable (completed cs w)"
  by (auto simp: reliable_def list_all_iff dest: in_set_dropD)

lemma transport_reliable:
  "reliable w \<Longrightarrow> transport c w = (Inr (), completed [c] w)"
  by (cases "faults w") (auto simp: transport_def completed_def reliable_def)

lemma io_bind_returns: "m w = (Inr x, w1) \<Longrightarrow> io_bind m f w = f x w1"
  by (simp add: io_bind_def)

lemma open_sheet_reliable:
  assumes "reliable w"
  shows "open_sheet w = (Inr (), completed [Connect, Connect, Connect] w)"
proof -
  have 1: "transport Connect w = (Inr (), completed [Connect] w)"
    using assms by (rule transport_reliable)
  have 2: "transport Connect (completed [Connect] w) = (Inr (), completed [Connect, Connect] w)"
    using transport_reliable [of "completed [Connect] w" Connect] assms by simp
  have 3: "transport Connect (completed [Connect, Connect] w) =
      (Inr (), completed [Connect, Connect, Connect] w)"
    using transport_reliable [of "completed [Connect, Connect] w" Connect] assms by simp
  show ?thesis
    by (simp add: open_sheet_def io_bind_def 1 2 3)
qed

lemma get_all_values_reliable:
  assumes "reliable w"
  shows "get_all_values w = (Inr (sheet w), completed [GetAllValues] w)"
proof -
  have 1: "transport GetAllValues w = (Inr (), completed [GetAllValues] w)"
    using assms by (rule transport_reliable)
  show ?thesis
    by (simp add: get_all_values_def io_bind_def 1)
qed

text \<open>The first two steps of every mirror operation.\<close>

lemma read_sheet_reliable:
  assumes "reliable w"
  shows "io_bind open_sheet (\<lambda>_. io_bind get_all_values f) w =
         f (sheet w) (completed [Connect, Connect, Connect, GetAllValues] w)"
proof -
  let ?w1 = "completed [Connect, Connect, Connect] w"
  have 1: "open_sheet w = (Inr (), ?w1)" using assms by (rule open_sheet_reliable)
  have r: "reliable ?w1" using assms by simp
  have 2: "get_all_values ?w1 = (Inr (sheet w), completed [Connect, Connect, Connect, GetAllValues] w)"
    using get_all_values_reliable [OF r] by simp
  show ?thesis
    by (simp add: io_bind_def 1 2)
qed

lemma calls_reliable:
  "reliable w \<Longrightarrow> append_row r w = (Inr (), completed [AppendRow r] w)"
  "reliable w \<Longrightarrow> clear w = (Inr (), completed [Clear] w)"
  "reliable w \<Longrightarrow> delete_rows i w = (Inr (), completed [DeleteRows i] w)"
  by (simp_all add: append_row_def clear_def delete_rows_def transport_reliable)

lemma delete_each_reliable:
  "reliable w \<Longrightarrow> delete_each is w = (Inr (), completed (map DeleteRows is) w)"
proof (induction "is" arbitrary: w)
  case Nil
  then show ?case by (simp add: io_return_def)
next
  case (Cons i "is")
  have 1: "delete_rows i w = (Inr (), completed [DeleteRows i] w)"
    using Cons.prems by (rule calls_reliable)
  have "reliable (completed [DeleteRows i] w)" using Cons.prems by simp
  from Cons.IH [OF this] show ?case
    by (simp add: io_bind_def 1)
qed

lemma length_headers: "length headers = 12"
  by (simp add: headers_def)

lemma strip_headers: "map strip headers = headers"
  by (simp add: headers_def strip_def isspace_def)

lemma list_ex_zip_differs:
  "list_ex (\<lambda>(a, b). f a \<noteq> g b) (zip xs ys) \<longleftrightarrow>
   map f (take (length ys) xs) \<noteq> map g (take (length xs) ys)"
proof (induction xs arbitrary: ys)
  case Nil
  then show ?case by simp
next
  case (Cons x xs)
  then show ?case by (cases ys) auto
qed

lemma header_mismatch_iff:
  "header_mismatch first_row \<longleftrightarrow>
   length first_row < 12 \<or> map strip (take 12 first_row) \<noteq> headers"
proof (cases "length first_row < 12")
  case True
  then show ?thesis by (simp add: header_mismatch_def length_headers)
next
  case False
  then have "take (length first_row) headers = headers" by (simp add: length_headers)
  then have "list_ex (\<lambda>(h1, h2). strip h1 \<noteq> strip h2) (zip first_row headers) \<longleftrightarrow>
      map strip (take 12 first_row) \<noteq> headers"
    by (simp add: list_ex_zip_differs length_headers strip_headers)
  with False show ?thesis by (simp add: header_mismatch_def length_headers)
qed

lemma append_job_try_empty:
  assumes r: "reliable w" and t: "fromisoformat L created_iso = Some t" and s: "sheet w = []"
  shows "append_job_try L data created_iso w =
    (Inr ''Job appended to Google Sheets.'',
     completed [Connect, Connect, Connect, GetAllValues, AppendRow headers,
                AppendRow (sheet_row data (days (clock w - t)) created_iso)] w)"
  unfolding append_job_try_def read_sheet_reliable [OF r]
  using r t s
  by (simp add: io_bind_def calls_reliable parse_iso_def io_return_def utcnow_def)

lemma append_job_try_mismatch:
  assumes r: "reliable w" and t: "fromisoformat L created_iso = Some t"
    and s: "sheet w \<noteq> []" "header_mismatch (hd (sheet w))"
  shows "append_job_try L data created_iso w =
    (Inr ''Job appended to Google Sheets.'',
     completed [Connect, Connect, Connect, GetAllValues, Clear, AppendRow headers,
                AppendRow (sheet_row data (days (clock w - t)) created_iso)] w)"
  unfolding append_job_try_def read_sheet_reliable [OF r]
  using r t s
  by (simp add: io_bind_def calls_reliable parse_iso_def io_return_def utcnow_def)

lemma append_job_try_match:
  assumes r: "reliable w" and t: "fromisoformat L created_iso = Some t"
    and s: "sheet w \<noteq> []" "\<not> header_mismatch (hd (sheet w))"
  shows "append_job_try L data created_iso w =
    (Inr ''Job appended to Google Sheets.'',
     completed [Connect, Connect, Connect, GetAllValues,
                AppendRow (sheet_row data (days (clock w - t)) created_iso)] w)"
  unfolding append_job_try_def read_sheet_reliable [OF r]
  using r t s
  by (simp add: io_bind_def calls_reliable parse_iso_def io_return_def utcnow_def)

lemma try_except_returned: "m w = (Inr x, w1) \<Longrightarrow> try_except m h w = (Inr x, w1)"
  by (simp add: try_except_def)

text \<open>
  C3, as amended.  With no transport call failing and a creation time that parses, the
  mirror append returns \<open>Job appended to Google Sheets.\<close> and: on a worksheet with no
  row it appends the header row and then the data row; on a worksheet whose first row
  has fewer than 12 cells, or one of whose first 12 cells differs from the header after
  \<open>strip\<close>, it clears the worksheet, appends the header row and then the data row; on
  a worksheet whose first 12 cells of the first row equal the headers after \<open>strip\<close>
  (more cells may follow, white space may surround them) it appends the data row only
  and leaves the first row as it is.
\<close>

theorem append_job_header_policy:
  fixes L :: libs and data :: dict and created_iso :: string and w :: world and t :: int
  defines "row \<equiv> sheet_row data (days (clock w - t)) created_iso"
    and "w' \<equiv> snd (append_job_to_google_sheets L data created_iso w)"
  assumes r: "reliable w" and t: "fromisoformat L created_iso = Some t"
  shows "fst (append_job_to_google_sheets L data created_iso w) = Inr ''Job appended to Google Sheets.'' \<and>
    (sheet w = [] \<longrightarrow>
       sheet w' = [headers, row] \<and>
       trace w' = trace w @ [Connect, Connect, Connect, GetAllValues, AppendRow headers, AppendRow row]) \<and>
    (sheet w \<noteq> [] \<and> (length (hd (sheet w)) < 12 \<or> map strip (take 12 (hd (sheet w))) \<noteq> headers) \<longrightarrow>
       sheet w' = [headers, row] \<and>
       trace w' = trace w @
         [Connect, Connect, Connect, GetAllValues, Clear, AppendRow headers, AppendRow row]) \<and>
    (sheet w \<noteq> [] \<and> 12 \<le> length (hd (sheet w)) \<and> map strip (take 12 (hd (sheet w))) = headers \<longrightarrow>
       sheet w' = sheet w @ [row] \<and>
       trace w' = trace w @ [Connect, Connect, Connect, GetAllValues, AppendRow row])"
proof -
  consider (empty) "sheet w = []"
    | (mismatch) "sheet w \<noteq> []" "header_mismatch (hd (sheet w))"
    | (match) "sheet w \<noteq> []" "\<not> header_mismatch (hd (sheet w))"
    by blast
  then show ?thesis
  proof cases
    case empty
    have "append_job_to_google_sheets L data created_iso w =
      (Inr ''Job appended to Google Sheets.'',
       completed [Connect, Connect, Connect, GetAllValues, AppendRow headers, AppendRow row] w)"
      unfolding append_job_to_google_sheets_def row_def
      by (rule try_except_returned) (rule append_job_try_empty [OF r t empty])
    with empty show ?thesis by (simp add: w'_def)
  next
    case mismatch
    have "append_job_to_google_sheets L data created_iso w =
      (Inr ''Job appended to Google Sheets.'',
       completed [Connect, Connect, Connect, GetAllValues, Clear, AppendRow headers, AppendRow row] w)"
      unfolding append_job_to_google_sheets_def row_def
      by (rule try_except_returned) (rule append_job_try_mismatch [OF r t mismatch])
    moreover from mismatch(2)
    have "length (hd (sheet w)) < 12 \<or> map strip (take 12 (hd (sheet w))) \<noteq> headers"
      by (simp only: header_mismatch_iff)
    moreover from mismatch(2)
    have "\<not> (12 \<le> length (hd (sheet w)) \<and> map strip (take 12 (hd (sheet w))) = headers)"
      unfolding header_mismatch_iff by linarith
    ultimately show ?thesis using mismatch(1) by (simp add: w'_def)
  next
    case match
    have "append_job_to_google_sheets L data created_iso w =
      (Inr ''Job appended to Google Sheets.'',
       completed [Connect, Connect, Connect, GetAllValues, AppendRow row] w)"
      unfolding append_job_to_google_sheets_def row_def
      by (rule try_except_returned) (rule append_job_try_match [OF r t match])
    moreover from match(2)
    have "12 \<le> length (hd (sheet w)) \<and> map strip (take 12 (hd (sheet w))) = headers"
      unfolding header_mismatch_iff by (simp add: not_less)
    ultimately show ?thesis using match(1) by (simp add: w'_def)
  qed
qed

lemma reliable_no_faults: "faults w = [] \<Longrightarrow> reliable w"
  by (simp add: reliable_def)

lemma sample_fromisoformat: "fromisoformat sample_libs ''0'' = Some 0"
  by (simp add: sample_libs_def)

lemma extra_column_matches: "\<not> header_mismatch (headers @ [''Notes''])"
  by (simp add: header_mismatch_iff length_headers strip_headers)

lemma extra_column_sheet_fields:
  "sheet extra_column_sheet = [headers @ [''Notes''], sheet_row sample_data 0 ''0'' @ [''call back'']]"
  "faults extra_column_sheet = []" "trace extra_column_sheet = []" "clock extra_column_sheet = 0"
  by (simp_all add: extra_column_sheet_def empty_world_def)

text \<open>
  A first row that differs from the header list by one more column is kept: the append
  does not clear the worksheet, and the first row still differs afterwards.
\<close>

theorem append_job_extra_column_counterexample:
  "hd (sheet extra_column_sheet) = headers @ [''Notes''] \<and>
   sheet (snd (append_job_to_google_sheets sample_libs sample_data ''0'' extra_column_sheet)) =
     [headers @ [''Notes''], sheet_row sample_data 0 ''0'' @ [''call back''],
      sheet_row sample_data 0 ''0''] \<and>
   trace (snd (append_job_to_google_sheets sample_libs sample_data ''0'' extra_column_sheet)) =
     [Connect, Connect, Connect, GetAllValues, AppendRow (sheet_row sample_data 0 ''0'')] \<and>
   headers @ [''Notes''] \<noteq> headers"
proof -
  have r: "reliable extra_column_sheet"
    by (rule reliable_no_faults) (rule extra_column_sheet_fields)
  have s: "sheet extra_column_sheet \<noteq> []" "\<not> header_mismatch (hd (sheet extra_column_sheet))"
    by (simp_all add: extra_column_sheet_fields extra_column_matches)
  have d: "days (clock extra_column_sheet - 0) = 0"
    by (simp add: extra_column_sheet_fields days_def)
  have "append_job_to_google_sheets sample_libs sample_data ''0'' extra_column_sheet =
      (Inr ''Job appended to Google Sheets.'',
       completed [Connect, Connect, Connect, GetAllValues,
                  AppendRow (sheet_row sample_data 0 ''0'')] extra_column_sheet)"
    unfolding append_job_to_google_sheets_def
    using append_job_try_match [OF r sample_fromisoformat s, of sample_data]
    unfolding d by (rule try_except_returned)
  then show ?thesis by (simp add: extra_column_sheet_fields)
qed

lemma stale_header_sheet_fields:
  "sheet stale_header_sheet = [[''Email'', ''Link''], [''a@x.com'', ''http://job/1'']]"
  "faults stale_header_sheet = []" "trace stale_header_sheet = []" "clock stale_header_sheet = 0"
  by (simp_all add: stale_header_sheet_def empty_world_def)

lemma empty_world_fields:
  "sheet empty_world = []" "faults empty_world = []" "trace empty_world = []" "clock empty_world = 0"
  by (simp_all add: empty_world_def)

theorem append_job_header_policy_witness:
  "sheet (snd (append_job_to_google_sheets sample_libs sample_data ''0'' empty_world)) =
     [headers, sheet_row sample_data 0 ''0''] \<and>
   sheet (snd (append_job_to_google_sheets sample_libs sample_data ''0'' stale_header_sheet)) =
     [headers, sheet_row sample_data 0 ''0''] \<and>
   trace (snd (append_job_to_google_sheets sample_libs sample_data ''0'' stale_header_sheet)) =
     [Connect, Connect, Connect, GetAllValues, Clear, AppendRow headers,
      AppendRow (sheet_row sample_data 0 ''0'')] \<and>
   sheet (snd (append_job_to_google_sheets sample_libs sample_data ''0'' extra_column_sheet)) =
     sheet extra_column_sheet @ [sheet_row sample_data 0 ''0'']"
proof -
  have r1: "reliable empty_world" by (rule reliable_no_faults) (rule empty_world_fields)
  have r2: "reliable stale_header_sheet" by (rule reliable_no_faults) (rule stale_header_sheet_fields)
  have r3: "reliable extra_column_sheet" by (rule reliable_no_faults) (rule extra_column_sheet_fields)
  have d: "days (0 - 0) = 0" by (simp add: days_def)
  note t1 = append_job_header_policy [OF r1 sample_fromisoformat, where data = sample_data]
  note t2 = append_job_header_policy [OF r2 sample_fromisoformat, where data = sample_data]
  note t3 = append_job_header_policy [OF r3 sample_fromisoformat, where data = sample_data]
  have h2: "sheet stale_header_sheet \<noteq> [] \<and>
      (length (hd (sheet stale_header_sheet)) < 12 \<or>
       map strip (take 12 (hd (sheet stale_header_sheet))) \<noteq> headers)"
    by (simp add: stale_header_sheet_fields)
  have h3: "sheet extra_column_sheet \<noteq> [] \<and> 12 \<le> length (hd (sheet extra_column_sheet)) \<and>
      map strip (take 12 (hd (sheet extra_column_sheet))) = headers"
    by (simp add: extra_column_sheet_fields length_headers strip_headers)
  have c1: "sheet (snd (append_job_to_google_sheets sample_libs sample_data ''0'' empty_world)) =
     [headers, sheet_row sample_data 0 ''0'']"
    using t1 [THEN conjunct2, THEN conjunct1, THEN mp, OF empty_world_fields(1), THEN conjunct1]
    by (simp only: empty_world_fields d)
  note c2 = t2 [THEN conjunct2, THEN conjunct2, THEN conjunct1, THEN mp, OF h2]
  have c2a: "sheet (snd (append_job_to_google_sheets sample_libs sample_data ''0'' stale_header_sheet)) =
     [headers, sheet_row sample_data 0 ''0'']"
    using c2 [THEN conjunct1] by (simp only: stale_header_sheet_fields d)
  have c2b: "trace (snd (append_job_to_google_sheets sample_libs sample_data ''0'' stale_header_sheet)) =
     [Connect, Connect, Connect, GetAllValues, Clear, AppendRow headers,
      AppendRow (sheet_row sample_data 0 ''0'')]"
    using c2 [THEN conjunct2] by (simp only: stale_header_sheet_fields d append_Nil)
  have c3: "sheet (snd (append_job_to_google_sheets sample_libs sample_data ''0'' extra_column_sheet)) =
     sheet extra_column_sheet @ [sheet_row sample_data 0 ''0'']"
    using t3 [THEN conjunct2, THEN conjunct2, THEN conjunct2, THEN mp, OF h3, THEN conjunct1]
    by (simp only: extra_column_sheet_fields(4) d)
  show ?thesis by (intro conjI c1 c2a c2b c3)
qed

subsection \<open>The mirror delete\<close>

lemma scan_rows_set:
  "set (scan_rows uc jc ue jl n rows) =
   {n + k | k. k < length rows \<and> row_matches uc jc ue jl (rows ! k)}"
proof (induction rows arbitrary: n)
  case Nil
  then show ?case by simp
next
  case (Cons row rows)
  have split: "{n + k | k. k < Suc (length rows) \<and> P ((row # rows) ! k)} =
      (if P row then {n} else {}) \<union> {Suc n + k | k. k < length rows \<and> P (rows ! k)}" for P
  proof (rule set_eqI)
    fix x
    show "x \<in> {n + k | k. k < Suc (length rows) \<and> P ((row # rows) ! k)} \<longleftrightarrow>
        x \<in> (if P row then {n} else {}) \<union> {Suc n + k | k. k < length rows \<and> P (rows ! k)}"
    proof
      assume "x \<in> {n + k | k. k < Suc (length rows) \<and> P ((row # rows) ! k)}"
      then obtain k where k: "x = n + k" "k < Suc (length rows)" "P ((row # rows) ! k)" by blast
      show "x \<in> (if P row then {n} else {}) \<union> {Suc n + k | k. k < length rows \<and> P (rows ! k)}"
      proof (cases k)
        case 0
        with k show ?thesis by simp
      next
        case (Suc j)
        with k have "x = Suc n + j" "j < length rows" "P (rows ! j)" by simp_all
        then show ?thesis by blast
      qed
    next
      assume "x \<in> (if P row then {n} else {}) \<union> {Suc n + k | k. k < length rows \<and> P (rows ! k)}"
      then consider "P row" "x = n" | j where "x = Suc n + j" "j < length rows" "P (rows ! j)"
        by (auto split: if_splits)
      then show "x \<in> {n + k | k. k < Suc (length rows) \<and> P ((row # rows) ! k)}"
      proof cases
        case 1
        then have "x = n + 0 \<and> 0 < Suc (length rows) \<and> P ((row # rows) ! 0)" by simp
        then show ?thesis by blast
      next
        case 2
        then have "x = n + Suc j \<and> Suc j < Suc (length rows) \<and> P ((row # rows) ! Suc j)" by simp
        then show ?thesis by blast
      qed
    qed
  qed
  show ?case by (simp add: Cons.IH split)
qed

lemma scan_rows_lower: "x \<in> set (scan_rows uc jc ue jl n rows) \<Longrightarrow> n \<le> x"
  by (auto simp: scan_rows_set)

lemma scan_rows_ascending: "sorted_wrt (<) (scan_rows uc jc ue jl n rows)"
proof (induction rows arbitrary: n)
  case Nil
  then show ?case by simp
next
  case (Cons row rows)
  have "n < x" if "x \<in> set (scan_rows uc jc ue jl (Suc n) rows)" for x
    using scan_rows_lower [OF that] by simp
  with Cons.IH [of "Suc n"] show ?case by simp
qed

lemma scan_rows_sorted: "sort (scan_rows uc jc ue jl n rows) = scan_rows uc jc ue jl n rows"
proof -
  have "sorted (scan_rows uc jc ue jl n rows)"
    using scan_rows_ascending [of uc jc ue jl n rows] by (simp add: strict_sorted_iff)
  then show ?thesis by (rule sorted_sort_id)
qed

lemma scan_rows_descending:
  "sorted_wrt (>) (rev (sort (scan_rows uc jc ue jl n rows)))"
  using scan_rows_ascending [of uc jc ue jl n rows]
  by (simp add: scan_rows_sorted sorted_wrt_rev)

lemma scan_rows_empty:
  "scan_rows uc jc ue jl n rows = [] \<longleftrightarrow> (\<forall>row\<in>set rows. \<not> row_matches uc jc ue jl row)"
  by (induction rows arbitrary: n) auto

lemma fold_effect_append:
  "fold effect (cs @ ds) rows = fold effect ds (fold effect cs rows)"
  by simp

lemma delete_descending:
  "n = Suc (length pre) \<Longrightarrow>
   fold effect (map DeleteRows (rev (scan_rows uc jc ue jl n rows))) (pre @ rows) =
   pre @ filter (\<lambda>row. \<not> row_matches uc jc ue jl row) rows"
proof (induction rows arbitrary: pre n)
  case Nil
  then show ?case by simp
next
  case (Cons row rows)
  have ih: "fold effect (map DeleteRows (rev (scan_rows uc jc ue jl (Suc n) rows))) ((pre @ [row]) @ rows) =
      (pre @ [row]) @ filter (\<lambda>row. \<not> row_matches uc jc ue jl row) rows"
    by (rule Cons.IH) (simp add: Cons.prems)
  show ?case
  proof (cases "row_matches uc jc ue jl row")
    case False
    with ih show ?thesis by simp
  next
    case True
    have "effect (DeleteRows n) (pre @ row # filter (\<lambda>row. \<not> row_matches uc jc ue jl row) rows) =
        pre @ filter (\<lambda>row. \<not> row_matches uc jc ue jl row) rows"
      by (simp add: Cons.prems)
    with ih True show ?thesis by simp
  qed
qed

lemma delete_job_try_no_rows:
  assumes r: "reliable w" and s: "length (sheet w) \<le> 1"
  shows "delete_job_try ue jl w =
    (Inr ''No rows to delete in Google Sheet.'',
     completed [Connect, Connect, Connect, GetAllValues] w)"
  unfolding delete_job_try_def read_sheet_reliable [OF r]
  using s by (simp add: io_return_def)

lemma delete_job_try_no_columns:
  assumes r: "reliable w" and s: "1 < length (sheet w)"
    and c: "''User Email'' \<notin> set (hd (sheet w)) \<or> ''Job Link'' \<notin> set (hd (sheet w))"
  shows "delete_job_try ue jl w =
    (Inr ''Required columns not found in Google Sheet.'',
     completed [Connect, Connect, Connect, GetAllValues] w)"
proof -
  from s have ne: "sheet w \<noteq> []" "\<not> length (sheet w) \<le> 1" by auto
  from c have "column (hd (sheet w)) ''User Email'' = None \<or> column (hd (sheet w)) ''Job Link'' = None"
    unfolding column_def by presburger
  then have "(case (column (hd (sheet w)) ''User Email'', column (hd (sheet w)) ''Job Link'') of
          (Some user_email_col, Some job_link_col) \<Rightarrow> f user_email_col job_link_col
        | _ \<Rightarrow> g) = g" for f and g :: "string io"
    by (cases "column (hd (sheet w)) ''User Email''"; cases "column (hd (sheet w)) ''Job Link''") simp_all
  then show ?thesis
    unfolding delete_job_try_def read_sheet_reliable [OF r]
    using ne by (simp add: io_return_def)
qed

lemma delete_job_try_columns:
  assumes r: "reliable w" and s: "1 < length (sheet w)"
    and c: "''User Email'' \<in> set (hd (sheet w))" "''Job Link'' \<in> set (hd (sheet w))"
  shows "delete_job_try ue jl w =
    (let rows_to_delete =
       scan_rows (index (hd (sheet w)) ''User Email'' + 1) (index (hd (sheet w)) ''Job Link'' + 1)
         ue jl 2 (tl (sheet w))
     in if rows_to_delete = [] then io_return ''No matching row found in Google Sheet.''
        else io_bind (delete_each (rev (sort rows_to_delete))) (\<lambda>_.
             io_return ''Deleted from Google Sheet.''))
      (completed [Connect, Connect, Connect, GetAllValues] w)"
proof -
  from s have ne: "sheet w \<noteq> []" "\<not> length (sheet w) \<le> 1" by auto
  from c have col: "column (hd (sheet w)) ''User Email'' = Some (index (hd (sheet w)) ''User Email'' + 1)"
    "column (hd (sheet w)) ''Job Link'' = Some (index (hd (sheet w)) ''Job Link'' + 1)"
    unfolding column_def by simp_all
  show ?thesis
    unfolding delete_job_try_def read_sheet_reliable [OF r]
    using ne by (simp only: col if_False simp_thms prod.case option.case)
qed

lemma delete_job_try_no_match:
  assumes r: "reliable w" and s: "1 < length (sheet w)"
    and c: "''User Email'' \<in> set (hd (sheet w))" "''Job Link'' \<in> set (hd (sheet w))"
    and m: "\<forall>row\<in>set (tl (sheet w)).
        \<not> row_matches (index (hd (sheet w)) ''User Email'' + 1)
            (index (hd (sheet w)) ''Job Link'' + 1) ue jl row"
  shows "delete_job_try ue jl w =
    (Inr ''No matching row found in Google Sheet.'',
     completed [Connect, Connect, Connect, GetAllValues] w)"
proof -
  from m have "scan_rows (index (hd (sheet w)) ''User Email'' + 1)
      (index (hd (sheet w)) ''Job Link'' + 1) ue jl 2 (tl (sheet w)) = []"
    by (simp only: scan_rows_empty)
  then show ?thesis
    unfolding delete_job_try_columns [OF r s c]
    by (simp add: io_return_def)
qed

lemma delete_job_try_match:
  assumes r: "reliable w" and s: "1 < length (sheet w)"
    and c: "''User Email'' \<in> set (hd (sheet w))" "''Job Link'' \<in> set (hd (sheet w))"
    and m: "\<exists>row\<in>set (tl (sheet w)).
        row_matches (index (hd (sheet w)) ''User Email'' + 1)
            (index (hd (sheet w)) ''Job Link'' + 1) ue jl row"
  shows "delete_job_try ue jl w =
    (Inr ''Deleted from Google Sheet.'',
     completed ([Connect, Connect, Connect, GetAllValues] @
       map DeleteRows (rev (scan_rows (index (hd (sheet w)) ''User Email'' + 1)
         (index (hd (sheet w)) ''Job Link'' + 1) ue jl 2 (tl (sheet w))))) w)"
proof -
  let ?scan = "scan_rows (index (hd (sheet w)) ''User Email'' + 1)
      (index (hd (sheet w)) ''Job Link'' + 1) ue jl 2 (tl (sheet w))"
  let ?w = "completed [Connect, Connect, Connect, GetAllValues] w"
  from m have ne: "?scan \<noteq> []" by (simp only: scan_rows_empty) blast
  have rw: "reliable ?w" using r by simp
  have d: "delete_each (rev (sort ?scan)) ?w = (Inr (), completed (map DeleteRows (rev ?scan)) ?w)"
    using delete_each_reliable [OF rw, of "rev (sort ?scan)"] by (simp only: scan_rows_sorted)
  show ?thesis
    unfolding delete_job_try_columns [OF r s c]
    using ne by (simp add: Let_def io_bind_def d [simplified] io_return_def)
qed

lemma fold_effect_read [simp]:
  "fold effect (Connect # cs) rows = fold effect cs rows"
  "fold effect (GetAllValues # cs) rows = fold effect cs rows"
  by simp_all

text \<open>
  C4.  With no transport call failing, the mirror delete reads the worksheet and:
  on a worksheet with no row or with the header row only it returns
  \<open>No rows to delete in Google Sheet.\<close>; when the first row lacks \<open>User Email\<close> or
  \<open>Job Link\<close> it returns \<open>Required columns not found in Google Sheet.\<close>; when no data
  row has the two given values in those columns it returns
  \<open>No matching row found in Google Sheet.\<close>; in these cases it calls no \<open>delete_rows\<close>
  and the worksheet is as before.  Otherwise it returns \<open>Deleted from Google Sheet.\<close>,
  the worksheet keeps the header row and exactly the data rows that do not match, in
  their order, and the \<open>delete_rows\<close> calls are the row numbers of exactly the matching
  rows (data row \<open>k\<close>, counted from 0, is row \<open>k + 2\<close>), in strictly descending order.
\<close>

theorem delete_job_from_google_sheets_spec:
  fixes ue jl :: string and w :: world
  defines "s \<equiv> sheet w"
    and "uc \<equiv> index (hd (sheet w)) ''User Email'' + 1"
    and "jc \<equiv> index (hd (sheet w)) ''Job Link'' + 1"
    and "res \<equiv> fst (delete_job_from_google_sheets ue jl w)"
    and "w' \<equiv> snd (delete_job_from_google_sheets ue jl w)"
  assumes r: "reliable w"
  shows
   "(length s \<le> 1 \<longrightarrow>
       res = Inr ''No rows to delete in Google Sheet.'' \<and> sheet w' = s \<and>
       trace w' = trace w @ [Connect, Connect, Connect, GetAllValues]) \<and>
    (1 < length s \<and> (''User Email'' \<notin> set (hd s) \<or> ''Job Link'' \<notin> set (hd s)) \<longrightarrow>
       res = Inr ''Required columns not found in Google Sheet.'' \<and> sheet w' = s \<and>
       trace w' = trace w @ [Connect, Connect, Connect, GetAllValues]) \<and>
    (1 < length s \<and> ''User Email'' \<in> set (hd s) \<and> ''Job Link'' \<in> set (hd s) \<and>
     (\<forall>row\<in>set (tl s). \<not> row_matches uc jc ue jl row) \<longrightarrow>
       res = Inr ''No matching row found in Google Sheet.'' \<and> sheet w' = s \<and>
       trace w' = trace w @ [Connect, Connect, Connect, GetAllValues]) \<and>
    (1 < length s \<and> ''User Email'' \<in> set (hd s) \<and> ''Job Link'' \<in> set (hd s) \<and>
     (\<exists>row\<in>set (tl s). row_matches uc jc ue jl row) \<longrightarrow>
       res = Inr ''Deleted from Google Sheet.'' \<and>
       sheet w' = hd s # filter (\<lambda>row. \<not> row_matches uc jc ue jl row) (tl s) \<and>
       (\<exists>idxs. trace w' = trace w @ [Connect, Connect, Connect, GetAllValues] @ map DeleteRows idxs \<and>
               sorted_wrt (>) idxs \<and>
               set idxs = {2 + k | k. k < length (tl s) \<and> row_matches uc jc ue jl (tl s ! k)}))"
proof -
  have c1: "length s \<le> 1 \<longrightarrow>
       res = Inr ''No rows to delete in Google Sheet.'' \<and> sheet w' = s \<and>
       trace w' = trace w @ [Connect, Connect, Connect, GetAllValues]"
  proof (rule impI)
  assume a: "length s \<le> 1"
  have "delete_job_from_google_sheets ue jl w =
    (Inr ''No rows to delete in Google Sheet.'', completed [Connect, Connect, Connect, GetAllValues] w)"
    unfolding delete_job_from_google_sheets_def
    by (rule try_except_returned) (rule delete_job_try_no_rows [OF r a [unfolded s_def]])
  then show "res = Inr ''No rows to delete in Google Sheet.'' \<and> sheet w' = s \<and>
       trace w' = trace w @ [Connect, Connect, Connect, GetAllValues]"
    by (simp add: res_def w'_def s_def)
  qed
  have c2: "1 < length s \<and> (''User Email'' \<notin> set (hd s) \<or> ''Job Link'' \<notin> set (hd s)) \<longrightarrow>
       res = Inr ''Required columns not found in Google Sheet.'' \<and> sheet w' = s \<and>
       trace w' = trace w @ [Connect, Connect, Connect, GetAllValues]"
  proof (rule impI)
  assume a: "1 < length s \<and> (''User Email'' \<notin> set (hd s) \<or> ''Job Link'' \<notin> set (hd s))"
  have "delete_job_from_google_sheets ue jl w =
    (Inr ''Required columns not found in Google Sheet.'',
     completed [Connect, Connect, Connect, GetAllValues] w)"
    unfolding delete_job_from_google_sheets_def
    by (rule try_except_returned)
       (rule delete_job_try_no_columns [OF r a [unfolded s_def, THEN conjunct1]
          a [unfolded s_def, THEN conjunct2]])
  then show "res = Inr ''Required columns not found in Google Sheet.'' \<and> sheet w' = s \<and>
       trace w' = trace w @ [Connect, Connect, Connect, GetAllValues]"
    by (simp add: res_def w'_def s_def)
  qed
  have c3: "1 < length s \<and> ''User Email'' \<in> set (hd s) \<and> ''Job Link'' \<in> set (hd s) \<and>
     (\<forall>row\<in>set (tl s). \<not> row_matches uc jc ue jl row) \<longrightarrow>
       res = Inr ''No matching row found in Google Sheet.'' \<and> sheet w' = s \<and>
       trace w' = trace w @ [Connect, Connect, Connect, GetAllValues]"
  proof (rule impI)
  assume a: "1 < length s \<and> ''User Email'' \<in> set (hd s) \<and> ''Job Link'' \<in> set (hd s) \<and>
     (\<forall>row\<in>set (tl s). \<not> row_matches uc jc ue jl row)"
  note b = a [unfolded s_def uc_def jc_def]
  have "delete_job_from_google_sheets ue jl w =
    (Inr ''No matching row found in Google Sheet.'',
     completed [Connect, Connect, Connect, GetAllValues] w)"
    unfolding delete_job_from_google_sheets_def
    by (rule try_except_returned)
       (rule delete_job_try_no_match [OF r b [THEN conjunct1] b [THEN conjunct2, THEN conjunct1]
          b [THEN conjunct2, THEN conjunct2, THEN conjunct1]
          b [THEN conjunct2, THEN conjunct2, THEN conjunct2]])
  then show "res = Inr ''No matching row found in Google Sheet.'' \<and> sheet w' = s \<and>
       trace w' = trace w @ [Connect, Connect, Connect, GetAllValues]"
    by (simp add: res_def w'_def s_def)
  qed
  have c4: "1 < length s \<and> ''User Email'' \<in> set (hd s) \<and> ''Job Link'' \<in> set (hd s) \<and>
     (\<exists>row\<in>set (tl s). row_matches uc jc ue jl row) \<longrightarrow>
       res = Inr ''Deleted from Google Sheet.'' \<and>
       sheet w' = hd s # filter (\<lambda>row. \<not> row_matches uc jc ue jl row) (tl s) \<and>
       (\<exists>idxs. trace w' = trace w @ [Connect, Connect, Connect, GetAllValues] @ map DeleteRows idxs \<and>
               sorted_wrt (>) idxs \<and>
               set idxs = {2 + k | k. k < length (tl s) \<and> row_matches uc jc ue jl (tl s ! k)})"
  proof (rule impI)
  assume a: "1 < length s \<and> ''User Email'' \<in> set (hd s) \<and> ''Job Link'' \<in> set (hd s) \<and>
     (\<exists>row\<in>set (tl s). row_matches uc jc ue jl row)"
  note b = a [unfolded s_def uc_def jc_def]
  let ?scan = "scan_rows uc jc ue jl 2 (tl s)"
  have res: "delete_job_from_google_sheets ue jl w =
    (Inr ''Deleted from Google Sheet.'',
     completed ([Connect, Connect, Connect, GetAllValues] @ map DeleteRows (rev ?scan)) w)"
    unfolding delete_job_from_google_sheets_def s_def uc_def jc_def
    by (rule try_except_returned)
       (rule delete_job_try_match [OF r b [THEN conjunct1] b [THEN conjunct2, THEN conjunct1]
          b [THEN conjunct2, THEN conjunct2, THEN conjunct1]
          b [THEN conjunct2, THEN conjunct2, THEN conjunct2]])
  from a have "s \<noteq> []" by auto
  then have hs: "s = [hd s] @ tl s" by simp
  have "fold effect (map DeleteRows (rev ?scan)) ([hd s] @ tl s) =
      [hd s] @ filter (\<lambda>row. \<not> row_matches uc jc ue jl row) (tl s)"
    by (rule delete_descending) simp
  with hs have f: "fold effect (map DeleteRows (rev ?scan)) s =
      hd s # filter (\<lambda>row. \<not> row_matches uc jc ue jl row) (tl s)"
    by simp
  have 1: "res = Inr ''Deleted from Google Sheet.''"
    by (simp add: res_def res)
  have 2: "sheet w' = hd s # filter (\<lambda>row. \<not> row_matches uc jc ue jl row) (tl s)"
    using f by (simp add: w'_def res s_def)
  have "trace w' = trace w @ [Connect, Connect, Connect, GetAllValues] @ map DeleteRows (rev ?scan) \<and>
      sorted_wrt (>) (rev ?scan) \<and>
      set (rev ?scan) = {2 + k | k. k < length (tl s) \<and> row_matches uc jc ue jl (tl s ! k)}"
    using scan_rows_ascending [of uc jc ue jl 2 "tl s"]
    by (simp add: w'_def res scan_rows_set sorted_wrt_rev)
  then have 3: "\<exists>idxs. trace w' = trace w @ [Connect, Connect, Connect, GetAllValues] @ map DeleteRows idxs \<and>
               sorted_wrt (>) idxs \<and>
               set idxs = {2 + k | k. k < length (tl s) \<and> row_matches uc jc ue jl (tl s ! k)}"
    by (rule exI [of _ "rev ?scan"])
  from 1 2 3 show "res = Inr ''Deleted from Google Sheet.'' \<and>
       sheet w' = hd s # filter (\<lambda>row. \<not> row_matches uc jc ue jl row) (tl s) \<and>
       (\<exists>idxs. trace w' = trace w @ [Connect, Connect, Connect, GetAllValues] @ map DeleteRows idxs \<and>
               sorted_wrt (>) idxs \<and>
               set idxs = {2 + k | k. k < length (tl s) \<and> row_matches uc jc ue jl (tl s ! k)})"
    by (intro conjI)
  qed
  show ?thesis by (rule conjI [OF c1 conjI [OF c2 conjI [OF c3 c4]]])
qed

lemma mirror_sheet_fields:
  "sheet mirror_sheet =
     [headers, [''a@x.com'', ''http://job/1''], [''b@x.com'', ''http://job/1''],
      [''a@x.com'', ''http://job/1''], [''a@x.com'', ''http://job/2'']]"
  "faults mirror_sheet = []" "trace mirror_sheet = []"
  by (simp_all add: mirror_sheet_def empty_world_def)

lemma headers_columns:
  "''User Email'' \<in> set headers" "''Job Link'' \<in> set headers"
  "index headers ''User Email'' = 0" "index headers ''Job Link'' = Suc 0"
  by (simp_all add: headers_def)

lemma stale_header_columns: "''User Email'' \<notin> set [''Email'', ''Link'']"
  by simp

theorem delete_job_from_google_sheets_witness:
  "fst (delete_job_from_google_sheets ''a@x.com'' ''http://job/1'' empty_world) =
     Inr ''No rows to delete in Google Sheet.'' \<and>
   fst (delete_job_from_google_sheets ''a@x.com'' ''http://job/1'' stale_header_sheet) =
     Inr ''Required columns not found in Google Sheet.'' \<and>
   fst (delete_job_from_google_sheets ''c@x.com'' ''http://job/1'' mirror_sheet) =
     Inr ''No matching row found in Google Sheet.'' \<and>
   sheet (snd (delete_job_from_google_sheets ''c@x.com'' ''http://job/1'' mirror_sheet)) =
     sheet mirror_sheet \<and>
   fst (delete_job_from_google_sheets ''a@x.com'' ''http://job/1'' mirror_sheet) =
     Inr ''Deleted from Google Sheet.'' \<and>
   sheet (snd (delete_job_from_google_sheets ''a@x.com'' ''http://job/1'' mirror_sheet)) =
     [headers, [''b@x.com'', ''http://job/1''], [''a@x.com'', ''http://job/2'']]"
proof -
  have r1: "reliable empty_world" by (rule reliable_no_faults) (rule empty_world_fields)
  have r2: "reliable stale_header_sheet" by (rule reliable_no_faults) (rule stale_header_sheet_fields)
  have r3: "reliable mirror_sheet" by (rule reliable_no_faults) (rule mirror_sheet_fields)
  note t1 = delete_job_from_google_sheets_spec [OF r1, where ue = "''a@x.com''" and jl = "''http://job/1''"]
  note t2 = delete_job_from_google_sheets_spec [OF r2, where ue = "''a@x.com''" and jl = "''http://job/1''"]
  note t3 = delete_job_from_google_sheets_spec [OF r3, where ue = "''c@x.com''" and jl = "''http://job/1''"]
  note t4 = delete_job_from_google_sheets_spec [OF r3, where ue = "''a@x.com''" and jl = "''http://job/1''"]
  have h1: "length (sheet empty_world) \<le> 1" by (simp add: empty_world_fields)
  have h2: "1 < length (sheet stale_header_sheet) \<and>
      (''User Email'' \<notin> set (hd (sheet stale_header_sheet)) \<or>
       ''Job Link'' \<notin> set (hd (sheet stale_header_sheet)))"
    by (simp add: stale_header_sheet_fields)
  have h3: "1 < length (sheet mirror_sheet) \<and> ''User Email'' \<in> set (hd (sheet mirror_sheet)) \<and>
      ''Job Link'' \<in> set (hd (sheet mirror_sheet)) \<and>
      (\<forall>row\<in>set (tl (sheet mirror_sheet)).
         \<not> row_matches (index (hd (sheet mirror_sheet)) ''User Email'' + 1)
             (index (hd (sheet mirror_sheet)) ''Job Link'' + 1) ''c@x.com'' ''http://job/1'' row)"
    by (simp add: mirror_sheet_fields headers_columns row_matches_def)
  have h4: "1 < length (sheet mirror_sheet) \<and> ''User Email'' \<in> set (hd (sheet mirror_sheet)) \<and>
      ''Job Link'' \<in> set (hd (sheet mirror_sheet)) \<and>
      (\<exists>row\<in>set (tl (sheet mirror_sheet)).
         row_matches (index (hd (sheet mirror_sheet)) ''User Email'' + 1)
             (index (hd (sheet mirror_sheet)) ''Job Link'' + 1) ''a@x.com'' ''http://job/1'' row)"
    by (simp add: mirror_sheet_fields headers_columns row_matches_def)
  have f: "hd (sheet mirror_sheet) #
      filter (\<lambda>row. \<not> row_matches (index (hd (sheet mirror_sheet)) ''User Email'' + 1)
             (index (hd (sheet mirror_sheet)) ''Job Link'' + 1) ''a@x.com'' ''http://job/1'' row)
        (tl (sheet mirror_sheet)) =
      [headers, [''b@x.com'', ''http://job/1''], [''a@x.com'', ''http://job/2'']]"
    by (simp add: mirror_sheet_fields headers_columns row_matches_def)
  note c1 = t1 [THEN conjunct1, THEN mp, OF h1, THEN conjunct1]
  note c2 = t2 [THEN conjunct2, THEN conjunct1, THEN mp, OF h2, THEN conjunct1]
  note c3 = t3 [THEN conjunct2, THEN conjunct2, THEN conjunct1, THEN mp, OF h3]
  note c4 = t4 [THEN conjunct2, THEN conjunct2, THEN conjunct2, THEN mp, OF h4]
  have c4b: "sheet (snd (delete_job_from_google_sheets ''a@x.com'' ''http://job/1'' mirror_sheet)) =
     [headers, [''b@x.com'', ''http://job/1''], [''a@x.com'', ''http://job/2'']]"
    using c4 [THEN conjunct2, THEN conjunct1] by (simp only: f)
  show ?thesis
    by (intro conjI c1 c2 c3 [THEN conjunct1] c3 [THEN conjunct2, THEN conjunct1]
          c4 [THEN conjunct1] c4b)
qed

text \<open>The rows 4 and 2 are removed, the later one first.\<close>

lemma delete_job_from_google_sheets_order:
  "trace (snd (delete_job_from_google_sheets ''a@x.com'' ''http://job/1'' mirror_sheet)) =
     [Connect, Connect, Connect, GetAllValues, DeleteRows 4, DeleteRows 2]"
proof -
  have r: "reliable mirror_sheet" by (rule reliable_no_faults) (rule mirror_sheet_fields)
  have s: "1 < length (sheet mirror_sheet)" by (simp add: mirror_sheet_fields)
  have c: "''User Email'' \<in> set (hd (sheet mirror_sheet))" "''Job Link'' \<in> set (hd (sheet mirror_sheet))"
    by (simp_all add: mirror_sheet_fields headers_columns)
  have m: "\<exists>row\<in>set (tl (sheet mirror_sheet)).
         row_matches (index (hd (sheet mirror_sheet)) ''User Email'' + 1)
             (index (hd (sheet mirror_sheet)) ''Job Link'' + 1) ''a@x.com'' ''http://job/1'' row"
    by (simp add: mirror_sheet_fields headers_columns row_matches_def)
  have sc: "scan_rows (index (hd (sheet mirror_sheet)) ''User Email'' + 1)
      (index (hd (sheet mirror_sheet)) ''Job Link'' + 1) ''a@x.com'' ''http://job/1'' 2
      (tl (sheet mirror_sheet)) = [2, 4]"
    by (simp add: mirror_sheet_fields headers_columns row_matches_def)
  have "delete_job_from_google_sheets ''a@x.com'' ''http://job/1'' mirror_sheet =
      (Inr ''Deleted from Google Sheet.'',
       completed ([Connect, Connect, Connect, GetAllValues] @ map DeleteRows (rev [2, 4])) mirror_sheet)"
    unfolding delete_job_from_google_sheets_def
    using delete_job_try_match [OF r s c m] unfolding sc by (rule try_except_returned)
  then show ?thesis by (simp add: mirror_sheet_fields)
qed

text \<open>The messages of the mirror delete differ from one another.\<close>

lemma delete_messages_distinct:
  "distinct [''No rows to delete in Google Sheet.'', ''Required columns not found in Google Sheet.'',
     ''No matching row found in Google Sheet.'', ''Deleted from Google Sheet.'',
     ''Failed to delete from Google Sheets: '' @ m]"
  by simp

subsection \<open>Saving a job application\<close>

lemma append_job_result:
  "\<exists>msg w1. append_job_to_google_sheets L data created_iso w = (Inr msg, w1) \<and>
     job_applications w1 = job_applications w"
proof -
  have "\<exists>msg w1. append_job_to_google_sheets L data created_iso w = (Inr msg, w1)"
    using never_raises_append_job [of L data created_iso] unfolding never_raises_def by (rule spec)
  then obtain msg w1 where a: "append_job_to_google_sheets L data created_iso w = (Inr msg, w1)"
    by (elim exE)
  have "same_store w (snd (append_job_to_google_sheets L data created_iso w))"
    using keeps_store_append_job [of L data created_iso] unfolding keeps_store_def by (rule spec)
  then have "job_applications w1 = job_applications w"
    by (simp add: a same_store_def)
  with a have "append_job_to_google_sheets L data created_iso w = (Inr msg, w1) \<and>
     job_applications w1 = job_applications w" by (rule conjI)
  then show ?thesis by (intro exI)
qed

lemma after_insert_job:
  "fst (io_bind (append_job_to_google_sheets L data now_iso) (\<lambda>gs_msg.
     io_bind (print (''Google Sheets: '' @ gs_msg)) (\<lambda>_.
     io_return ''Job application saved successfully!'')) w) =
     Inr ''Job application saved successfully!'' \<and>
   job_applications (snd (io_bind (append_job_to_google_sheets L data now_iso) (\<lambda>gs_msg.
     io_bind (print (''Google Sheets: '' @ gs_msg)) (\<lambda>_.
     io_return ''Job application saved successfully!'')) w)) = job_applications w"
proof -
  from append_job_result [of L data now_iso w]
  obtain msg w1 where a: "append_job_to_google_sheets L data now_iso w = (Inr msg, w1)"
    and j: "job_applications w1 = job_applications w"
    by (elim exE conjE)
  show ?thesis
    by (simp add: io_bind_def a print_def io_return_def j)
qed

lemma job_applications_insert_job:
  "job_applications (insert_job ue data now_iso w) =
   job_applications w @
     [\<lparr>job_id = next_rowid (seq_jobs w) (map job_id (job_applications w)), user_email = ue,
       job_link = get data ''job_link'' [],
       company_name = get data ''company_name'' [],
       job_role = get data ''job_role'' [],
       job_location = get data ''job_location'' [],
       status = get data ''status'' [],
       recruiter_name = get data ''recruiter_name'' [],
       recruiter_email = get data ''recruiter_email'' [],
       recruiter_phone = get data ''recruiter_phone'' [],
       comments = get data ''comments'' [],
       created_at = now_iso\<rparr>]"
  by (simp add: insert_job_def Let_def)

lemma save_job_application_inserts:
  assumes "data ''user_email'' = Some ue"
  shows "fst (save_job_application L data w) = Inr ''Job application saved successfully!'' \<and>
    job_applications (snd (save_job_application L data w)) =
      job_applications (insert_job ue data (isoformat L (clock w)) w)"
proof -
  have s: "save_job_application L data w =
      io_bind (append_job_to_google_sheets L data (isoformat L (clock w))) (\<lambda>gs_msg.
        io_bind (print (''Google Sheets: '' @ gs_msg)) (\<lambda>_.
        io_return ''Job application saved successfully!''))
        (insert_job ue data (isoformat L (clock w)) w)"
    using assms by (simp add: save_job_application_def getitem_def Let_def)
  show ?thesis
    using after_insert_job [of L data "isoformat L (clock w)"
        "insert_job ue data (isoformat L (clock w)) w"]
    by (simp only: s)
qed

lemma job_exists_for_user_iff:
  "job_exists_for_user ue jl w \<longleftrightarrow>
   (ue, jl) \<in> set (map (\<lambda>j. (user_email j, job_link j)) (job_applications w))"
proof -
  have "fetchone (filter (\<lambda>j. user_email j = ue \<and> job_link j = jl) (job_applications w)) = None \<longleftrightarrow>
      (\<forall>j\<in>set (job_applications w). \<not> (user_email j = ue \<and> job_link j = jl))"
    by (rule fetchone_filter_None)
  then show ?thesis by (auto simp: job_exists_for_user_def)
qed

lemma save_job_application_shadowed_new:
  assumes "data ''user_email'' = Some ue" "data ''job_link'' = Some jl"
    and "\<not> job_exists_for_user ue jl w"
  shows "fst (save_job_application_shadowed L data w) = Inr ''Job application saved successfully!'' \<and>
    job_applications (snd (save_job_application_shadowed L data w)) =
      job_applications (insert_job ue data (isoformat L (clock w)) w)"
proof -
  have s: "save_job_application_shadowed L data w =
      io_bind (append_job_to_google_sheets L data (isoformat L (clock w))) (\<lambda>gs_msg.
        io_bind (print (''Google Sheets: '' @ gs_msg)) (\<lambda>_.
        io_return ''Job application saved successfully!''))
        (insert_job ue data (isoformat L (clock w)) w)"
    using assms by (simp add: save_job_application_shadowed_def getitem_def Let_def)
  show ?thesis
    using after_insert_job [of L data "isoformat L (clock w)"
        "insert_job ue data (isoformat L (clock w)) w"]
    by (simp only: s)
qed

lemma save_job_application_shadowed_duplicate:
  assumes "data ''user_email'' = Some ue" "data ''job_link'' = Some jl"
    and "job_exists_for_user ue jl w"
  shows "save_job_application_shadowed L data w =
    (Inr ''Duplicate job link for this user. Record not added.'', w)"
  using assms by (simp add: save_job_application_shadowed_def getitem_def)

text \<open>
  The first definition does what its docstring says: after a successful save the pair
  exists, and a second save of the same dictionary returns the duplicate message and
  leaves the state as it is.
\<close>

lemma save_job_application_shadowed_prevents_duplicate:
  assumes d: "data ''user_email'' = Some ue" "data ''job_link'' = Some jl"
    and n: "\<not> job_exists_for_user ue jl w"
  shows "job_exists_for_user ue jl (snd (save_job_application_shadowed L data w)) \<and>
    save_job_application_shadowed L data (snd (save_job_application_shadowed L data w)) =
      (Inr ''Duplicate job link for this user. Record not added.'',
       snd (save_job_application_shadowed L data w))"
proof -
  let ?w = "snd (save_job_application_shadowed L data w)"
  have "job_applications ?w = job_applications (insert_job ue data (isoformat L (clock w)) w)"
    using save_job_application_shadowed_new [where data = data, OF d n, of L] by (rule conjunct2)
  then have e: "job_exists_for_user ue jl ?w"
    using d(2) by (simp add: job_exists_for_user_iff job_applications_insert_job get_def)
  from save_job_application_shadowed_duplicate [where data = data, OF d e, of L] e show ?thesis by (rule conjI [rotated])
qed

lemma sample_data_keys:
  "sample_data ''user_email'' = Some ''a@x.com''" "sample_data ''job_link'' = Some ''http://job/1''"
  "get sample_data ''job_link'' [] = ''http://job/1''"
  by (simp_all add: sample_data_def get_def)

lemma save_job_application_pairs:
  assumes "data ''user_email'' = Some ue"
  shows "map (\<lambda>j. (user_email j, job_link j)) (job_applications (snd (save_job_application L data w))) =
    map (\<lambda>j. (user_email j, job_link j)) (job_applications w) @ [(ue, get data ''job_link'' [])]"
  using save_job_application_inserts [where data = data and ue = ue and L = L and w = w, OF assms, THEN conjunct2]
  by (simp add: job_applications_insert_job)

text \<open>
  C1.  The definition of \<open>save_job_application\<close> in force makes no duplicate check.
  From the empty store, saving the dictionary with \<open>user_email\<close> a@x.com and \<open>job_link\<close>
  http://job/1 succeeds and \<open>job_exists_for_user\<close> holds for the pair afterwards; saving
  the same dictionary again succeeds too, and the table then holds two rows with that
  pair.
\<close>

theorem save_job_application_accepts_duplicate:
  "fst (save_job_application sample_libs sample_data empty_world) =
     Inr ''Job application saved successfully!'' \<and>
   job_exists_for_user ''a@x.com'' ''http://job/1''
     (snd (save_job_application sample_libs sample_data empty_world)) \<and>
   fst (save_job_application sample_libs sample_data
          (snd (save_job_application sample_libs sample_data empty_world))) =
     Inr ''Job application saved successfully!'' \<and>
   map (\<lambda>j. (user_email j, job_link j))
     (job_applications (snd (save_job_application sample_libs sample_data
          (snd (save_job_application sample_libs sample_data empty_world))))) =
     [(''a@x.com'', ''http://job/1''), (''a@x.com'', ''http://job/1'')]"
proof -
  let ?w1 = "snd (save_job_application sample_libs sample_data empty_world)"
  let ?w2 = "snd (save_job_application sample_libs sample_data ?w1)"
  have e: "job_applications empty_world = []" by (simp add: empty_world_def)
  have p1: "map (\<lambda>j. (user_email j, job_link j)) (job_applications ?w1) = [(''a@x.com'', ''http://job/1'')]"
    using save_job_application_pairs [where data = sample_data and L = sample_libs and w = empty_world, OF sample_data_keys(1)]
    by (simp add: e sample_data_keys(3))
  have p2: "map (\<lambda>j. (user_email j, job_link j)) (job_applications ?w2) =
      [(''a@x.com'', ''http://job/1''), (''a@x.com'', ''http://job/1'')]"
    using save_job_application_pairs [where data = sample_data and L = sample_libs and w = ?w1, OF sample_data_keys(1)]
    by (simp only: p1 sample_data_keys(3) append.simps)
  have c1: "fst (save_job_application sample_libs sample_data empty_world) =
     Inr ''Job application saved successfully!''"
    by (rule save_job_application_inserts [where data = sample_data, OF sample_data_keys(1), THEN conjunct1])
  have c2: "job_exists_for_user ''a@x.com'' ''http://job/1'' ?w1"
    by (simp add: job_exists_for_user_iff p1)
  have c3: "fst (save_job_application sample_libs sample_data ?w1) =
     Inr ''Job application saved successfully!''"
    by (rule save_job_application_inserts [where data = sample_data, OF sample_data_keys(1), THEN conjunct1])
  show ?thesis by (intro conjI c1 c2 c3 p2)
qed

text \<open>On the same input the first definition refuses the second save.\<close>

lemma save_job_application_shadowed_refuses_duplicate:
  "save_job_application_shadowed sample_libs sample_data
     (snd (save_job_application_shadowed sample_libs sample_data empty_world)) =
   (Inr ''Duplicate job link for this user. Record not added.'',
    snd (save_job_application_shadowed sample_libs sample_data empty_world))"
proof -
  have n: "\<not> job_exists_for_user ''a@x.com'' ''http://job/1'' empty_world"
    by (simp add: job_exists_for_user_iff empty_world_def)
  show ?thesis
    by (rule save_job_application_shadowed_prevents_duplicate
          [where data = sample_data, OF sample_data_keys(1) sample_data_keys(2) n, THEN conjunct2])
qed

end
